theory Spec2Isabelle
  imports Main
begin

section \<open>Python values and faults\<close>

text \<open>
  The exceptions that the tracking-queue store can raise.  \<open>ContextError\<close> is the plain
  \<open>Exception\<close> raised by \<open>raise_if_outside_context\<close>; \<open>BroadcastError\<close> is the
  \<open>TypeError\<close> that h5py raises when an array cannot be broadcast to a selection, kept
  apart from the \<open>TypeError\<close> of the field checks.
\<close>

datatype error =
    TypeError
  | AssertionError
  | AttributeError
  | ContextError
  | KeyError
  | FileNotFoundError
  | ValueError
  | OverflowError
  | UnicodeEncodeError
  | BroadcastError

text \<open>
  The Python values that the checks of \<open>FlowQueue.__setattr__\<close> tell apart.  Any value of
  another type behaves like \<open>PNone\<close> in every \<open>isinstance\<close> test made by the class.
\<close>

datatype pyval =
    PInt int
  | PBool bool
  | PStr string
  | PTuple "pyval list"
  | PList "pyval list"
  | PNone

text \<open>\<open>isinstance(v, int)\<close>: in Python \<open>bool\<close> is a subclass of \<open>int\<close>.\<close>

fun isinstance_int :: "pyval \<Rightarrow> bool" where
  "isinstance_int (PInt _) = True"
| "isinstance_int (PBool _) = True"
| "isinstance_int _ = False"

fun isinstance_str :: "pyval \<Rightarrow> bool" where
  "isinstance_str (PStr _) = True"
| "isinstance_str _ = False"

fun isinstance_bool :: "pyval \<Rightarrow> bool" where
  "isinstance_bool (PBool _) = True"
| "isinstance_bool _ = False"

fun truthy :: "pyval \<Rightarrow> bool" where
  "truthy (PInt i) = (i \<noteq> 0)"
| "truthy (PBool b) = b"
| "truthy (PStr s) = (s \<noteq> [])"
| "truthy (PTuple vs) = (vs \<noteq> [])"
| "truthy (PList vs) = (vs \<noteq> [])"
| "truthy PNone = False"

section \<open>FlowQueue as a Python object\<close>

text \<open>
  An instance is its attribute dictionary.  \<open>__initialized__\<close> is a class attribute with
  value \<open>False\<close> until \<open>__post_init__\<close> stores \<open>True\<close> in the instance.
\<close>

type_synonym obj = "string \<rightharpoonup> pyval"

definition static_variables :: "string list" where
  "static_variables = [''point'', ''camera'', ''z_index'', ''label'']"

definition initialized :: "obj \<Rightarrow> bool" where
  "initialized self = (case self ''__initialized__'' of None \<Rightarrow> False | Some v \<Rightarrow> truthy v)"

text \<open>The type check at the head of \<open>__setattr__\<close>; \<open>None\<close> when it passes.\<close>

definition type_check :: "string \<Rightarrow> pyval \<Rightarrow> error option" where
  "type_check name val =
     (if name = ''point'' then
        (case val of
           PTuple vs \<Rightarrow>
             if length vs \<noteq> 2 then Some AssertionError
             else if \<not> list_all isinstance_int vs then Some TypeError
             else None
         | _ \<Rightarrow> Some TypeError)
      else if name \<in> set [''start_frame'', ''end_frame'', ''camera'', ''z_index''] then
        (if \<not> isinstance_int val then Some TypeError else None)
      else if name = ''label'' then
        (if \<not> isinstance_str val then Some TypeError else None)
      else if name = ''done'' then
        (if \<not> isinstance_bool val then Some TypeError else None)
      else None)"

text \<open>
  \<open>__setattr__\<close>: the check, then the store, then the immutability test.  The result is
  the exception raised, if any, and the object as the call leaves it.
\<close>

definition setattr :: "obj \<Rightarrow> string \<Rightarrow> pyval \<Rightarrow> error option \<times> obj" where
  "setattr self name val =
     (case type_check name val of
        Some e \<Rightarrow> (Some e, self)
      | None \<Rightarrow>
          (let self' = self(name \<mapsto> val) in
           if initialized self' \<and> name \<in> set static_variables
           then (Some AttributeError, self')
           else (None, self')))"

text \<open>
  The \<open>__init__\<close> that \<open>@dataclass\<close> generates assigns the fields in declaration order
  and then calls \<open>__post_init__\<close>; an exception leaves no object.  A caller that omits
  \<open>done\<close> passes its default, \<open>False\<close>.
\<close>

fun assign_fields :: "(string \<times> pyval) list \<Rightarrow> obj \<Rightarrow> error + obj" where
  "assign_fields [] self = Inr self"
| "assign_fields ((name, val) # rest) self =
     (case setattr self name val of
        (Some e, _) \<Rightarrow> Inl e
      | (None, self') \<Rightarrow> assign_fields rest self')"

definition post_init :: "obj \<Rightarrow> error + obj" where
  "post_init self =
     (case setattr self ''__initialized__'' (PBool True) of
        (Some e, _) \<Rightarrow> Inl e
      | (None, self') \<Rightarrow> Inr self')"

definition field_args ::
  "pyval \<Rightarrow> pyval \<Rightarrow> pyval \<Rightarrow> pyval \<Rightarrow> pyval \<Rightarrow> pyval \<Rightarrow> pyval \<Rightarrow> (string \<times> pyval) list" where
  "field_args point start_frame end_frame camera z_index label done =
     [(''point'', point), (''start_frame'', start_frame), (''end_frame'', end_frame),
      (''camera'', camera), (''z_index'', z_index), (''label'', label), (''done'', done)]"

definition FlowQueue_init ::
  "pyval \<Rightarrow> pyval \<Rightarrow> pyval \<Rightarrow> pyval \<Rightarrow> pyval \<Rightarrow> pyval \<Rightarrow> pyval \<Rightarrow> error + obj" where
  "FlowQueue_init point start_frame end_frame camera z_index label done =
     (case assign_fields
             (field_args point start_frame end_frame camera z_index label done) Map.empty of
        Inl e \<Rightarrow> Inl e
      | Inr self \<Rightarrow> post_init self)"

section \<open>FlowQueue records\<close>

text \<open>
  A constructed \<open>FlowQueue\<close> whose fields hold values of the annotated types.  The
  integers are Python's unbounded \<open>int\<close>; a label is a \<open>str\<close> whose characters are the
  code points below 256.
\<close>

record FlowQueue =
  point :: "int \<times> int"
  start_frame :: int
  end_frame :: int
  camera :: int
  z_index :: int
  label :: string
  done_flag :: bool

text \<open>The attribute dictionary of such an instance.\<close>

definition obj_of :: "FlowQueue \<Rightarrow> obj" where
  "obj_of q =
     [''point'' \<mapsto> PTuple [PInt (fst (point q)), PInt (snd (point q))],
      ''start_frame'' \<mapsto> PInt (start_frame q),
      ''end_frame'' \<mapsto> PInt (end_frame q),
      ''camera'' \<mapsto> PInt (camera q),
      ''z_index'' \<mapsto> PInt (z_index q),
      ''label'' \<mapsto> PStr (label q),
      ''done'' \<mapsto> PBool (done_flag q),
      ''__initialized__'' \<mapsto> PBool True]"

text \<open>\<open>__eq__\<close>: \<open>all([...])\<close> over seven comparisons; \<open>done\<close> is not among them.\<close>

definition FlowQueue_eq :: "FlowQueue \<Rightarrow> FlowQueue \<Rightarrow> bool" where
  "FlowQueue_eq self other =
     list_all (\<lambda>b. b)
       [fst (point self) = fst (point other),
        snd (point self) = snd (point other),
        start_frame self = start_frame other,
        end_frame self = end_frame other,
        camera self = camera other,
        z_index self = z_index other,
        label self = label other]"

text \<open>Decimal rendering of an integer inside an f-string.\<close>

fun str_nat :: "nat \<Rightarrow> string" where
  "str_nat n =
     (if n < 10 then [''0123456789'' ! n]
      else str_nat (n div 10) @ [''0123456789'' ! (n mod 10)])"

definition str_int :: "int \<Rightarrow> string" where
  "str_int i = (if i < 0 then CHR ''-'' # str_nat (nat (- i)) else str_nat (nat i))"

definition h5_directory :: "FlowQueue \<Rightarrow> string" where
  "h5_directory self =
     ''/trajectory/camera_'' @ str_int (camera self) @ ''/z_'' @ str_int (z_index self)
       @ ''/label_'' @ label self"

definition get_tag :: "FlowQueue \<Rightarrow> string" where
  "get_tag self = ''z'' @ str_int (z_index self) @ ''-'' @ label self"

section \<open>The binary row schema\<close>

text \<open>
  One row of the record table, by \<open>FlowQueue.dtype\<close>: two \<open>i4\<close> for the point, four
  \<open>i4\<close>, the ten bytes of the \<open>S10\<close> label (padded with NUL), one boolean.
\<close>

record qrow =
  row_point :: "int \<times> int"
  row_start_frame :: int
  row_end_frame :: int
  row_camera :: int
  row_z_index :: int
  row_label :: string
  row_done :: bool

definition fits_i4 :: "int \<Rightarrow> bool" where
  "fits_i4 x = (- 2147483648 \<le> x \<and> x \<le> 2147483647)"

text \<open>
  Storing a Python integer in an \<open>i4\<close> field.  NumPy 2 raises \<open>OverflowError\<close> outside
  the 32-bit range (older releases wrap around instead).
\<close>

definition to_i4 :: "int \<Rightarrow> error + int" where
  "to_i4 x = (if fits_i4 x then Inr x else Inl OverflowError)"

definition is_ascii :: "char \<Rightarrow> bool" where
  "is_ascii c = ((of_char c :: nat) < 128)"

definition NUL :: char where
  "NUL = CHR 0x00"

text \<open>
  Storing a \<open>str\<close> in an \<open>S10\<close> field: encoded as ASCII, cut after ten bytes, padded
  with NUL.
\<close>

definition to_S10 :: "string \<Rightarrow> error + string" where
  "to_S10 s =
     (if list_all is_ascii s
      then Inr (take 10 s @ replicate (10 - length s) NUL)
      else Inl UnicodeEncodeError)"

text \<open>Reading an \<open>S10\<close> field yields the bytes without the trailing NULs.\<close>

definition from_S10 :: "string \<Rightarrow> string" where
  "from_S10 bs = rev (dropWhile (\<lambda>c. c = NUL) (rev bs))"

text \<open>
  \<open>bytes.decode()\<close>.  ASCII bytes decode to themselves; the store writes no others,
  and the model does not follow multi-byte sequences: it reports them as
  \<open>ValueError\<close>, the class of \<open>UnicodeDecodeError\<close>.
\<close>

definition decode :: "string \<Rightarrow> error + string" where
  "decode bs = (if list_all is_ascii bs then Inr bs else Inl ValueError)"

fun bind_err :: "error + 'a \<Rightarrow> ('a \<Rightarrow> error + 'b) \<Rightarrow> error + 'b" where
  "bind_err (Inl e) f = Inl e"
| "bind_err (Inr x) f = f x"

text \<open>\<open>__array__\<close>: the fields are stored one after the other into a fresh row.\<close>

definition to_row :: "FlowQueue \<Rightarrow> error + qrow" where
  "to_row self =
     bind_err (to_i4 (fst (point self))) (\<lambda>px.
     bind_err (to_i4 (snd (point self))) (\<lambda>py.
     bind_err (to_i4 (start_frame self)) (\<lambda>sf.
     bind_err (to_i4 (end_frame self)) (\<lambda>ef.
     bind_err (to_i4 (camera self)) (\<lambda>cam.
     bind_err (to_i4 (z_index self)) (\<lambda>z.
     bind_err (to_S10 (label self)) (\<lambda>lbl.
       Inr \<lparr>row_point = (px, py), row_start_frame = sf, row_end_frame = ef,
            row_camera = cam, row_z_index = z, row_label = lbl,
            row_done = done_flag self\<rparr>)))))))"

text \<open>
  The body of the loop of \<open>load\<close>: a row as \<open>tolist()\<close> gives it, the label decoded,
  passed to the constructor (whose checks these values pass).
\<close>

definition of_row :: "qrow \<Rightarrow> error + FlowQueue" where
  "of_row r =
     bind_err (decode (from_S10 (row_label r))) (\<lambda>lbl.
       Inr \<lparr>point = row_point r, start_frame = row_start_frame r,
            end_frame = row_end_frame r, camera = row_camera r,
            z_index = row_z_index r, label = lbl, done_flag = row_done r\<rparr>)"

fun of_rows :: "qrow list \<Rightarrow> error + FlowQueue list" where
  "of_rows [] = Inr []"
| "of_rows (r # rs) =
     bind_err (of_row r) (\<lambda>q. bind_err (of_rows rs) (\<lambda>qs. Inr (q # qs)))"

text \<open>A row of a freshly created table: all bytes zero.\<close>

definition zero_row :: qrow where
  "zero_row =
     \<lparr>row_point = (0, 0), row_start_frame = 0, row_end_frame = 0, row_camera = 0,
      row_z_index = 0, row_label = replicate 10 NUL, row_done = False\<rparr>"

section \<open>The container file\<close>

text \<open>
  A trajectory is a two-column integer array, one row per frame; its entries are
  \<open>np.int_\<close>, taken here as integers that fit that type.  The container holds
  the record table (dataset \<open>queues\<close>), the trajectory datasets, addressed by the
  group path and the dataset name (\<open>prefix\<close>), and the marker-position blob.  The
  \<open>unit\<close> attribute of a trajectory dataset and the empty groups that
  \<open>require_group\<close> leaves behind are not represented.
\<close>

type_synonym traj = "(int \<times> int) list"

record 'm h5file =
  table :: "qrow list option"
  dsets :: "string \<times> string \<rightharpoonup> traj"
  marker :: "'m option"

definition sentinel :: "int \<times> int" where
  "sentinel = (- 1, - 1)"

definition empty_file :: "'m h5file" where
  "empty_file = \<lparr>table = None, dsets = Map.empty, marker = None\<rparr>"

text \<open>\<open>h5py.File(path, "a")\<close> creates the file when there is none.\<close>

definition open_append :: "'m h5file option \<Rightarrow> 'm h5file" where
  "open_append disk = (case disk of None \<Rightarrow> empty_file | Some h5f \<Rightarrow> h5f)"

text \<open>
  One bound of a slice over \<open>n\<close> rows, as \<open>slice.indices\<close> computes it: a negative
  bound counts from the end, and the result is clipped to \<open>[0, n]\<close>.
\<close>

definition slice_bound :: "int \<Rightarrow> nat \<Rightarrow> nat" where
  "slice_bound i n = (if i < 0 then nat (max (i + int n) 0) else min (nat i) n)"

text \<open>\<open>dset[start:stop]\<close> read: an empty selection when the stop lies before the start.\<close>

definition read_slice :: "int \<Rightarrow> int \<Rightarrow> traj \<Rightarrow> traj" where
  "read_slice start stop dset =
     (let lo = slice_bound start (length dset); hi = slice_bound stop (length dset)
      in take (hi - lo) (drop lo dset))"

text \<open>
  \<open>dset[start:stop] = data\<close>: h5py writes nothing when the selection is empty;
  otherwise the rows must match the selection, except that a single row is broadcast
  over it.
\<close>

definition write_slice :: "int \<Rightarrow> int \<Rightarrow> traj \<Rightarrow> traj \<Rightarrow> error + traj" where
  "write_slice start stop data dset =
     (let lo = slice_bound start (length dset); hi = slice_bound stop (length dset);
          count = hi - lo
      in if count = 0 then Inr dset
         else if length data = count then Inr (take lo dset @ data @ drop (lo + count) dset)
         else if length data = 1
         then Inr (take lo dset @ replicate count (hd data) @ drop (lo + count) dset)
         else Inl BroadcastError)"

text \<open>\<open>trajectory[lo:hi] = -1\<close> on the array in memory, for bounds already clipped.\<close>

definition fill_sentinel :: "nat \<Rightarrow> nat \<Rightarrow> traj \<Rightarrow> traj" where
  "fill_sentinel lo hi tr = take lo tr @ replicate (hi - lo) sentinel @ drop (max lo hi) tr"

section \<open>TrackingData\<close>

text \<open>
  The store: the queues, the marker positions and the guard flag.  The path is fixed, so
  the file system is the one slot \<open>'m h5file option\<close> (\<open>None\<close>: no file at the path).
  An operation maps the store and the disk to its outcome and the store and disk it leaves.
  The queues are held by value: an assignment to a field of a queue in the list is an
  update of that element, and no two elements are the same object.
\<close>

record 'm TrackingData =
  queues :: "FlowQueue list"
  marker_positions :: 'm
  inside_context :: bool

type_synonym 'm sys = "'m TrackingData \<times> 'm h5file option"

definition TrackingData_init :: "'m \<Rightarrow> 'm TrackingData" where
  "TrackingData_init mp = \<lparr>queues = [], marker_positions = mp, inside_context = False\<rparr>"

definition raise_if_outside_context ::
  "('m sys \<Rightarrow> (error + 'r) \<times> 'm sys) \<Rightarrow> 'm sys \<Rightarrow> (error + 'r) \<times> 'm sys" where
  "raise_if_outside_context method s =
     (if \<not> inside_context (fst s) then (Inl ContextError, s) else method s)"

definition all_done :: "'m sys \<Rightarrow> (error + bool) \<times> 'm sys" where
  "all_done =
     raise_if_outside_context (\<lambda>s.
       (Inr (if length (queues (fst s)) = 0 then True
             else list_all done_flag (queues (fst s))), s))"

definition iter_cameras :: "'m sys \<Rightarrow> (error + int list) \<times> 'm sys" where
  "iter_cameras =
     raise_if_outside_context (\<lambda>s.
       (Inr (sorted_list_of_set (set (map camera (queues (fst s))))), s))"

text \<open>The two ways of writing \<open>data\<close> into the dataset, after it is found or created.\<close>

definition write_traj :: "bool \<Rightarrow> FlowQueue \<Rightarrow> traj \<Rightarrow> traj \<Rightarrow> error + traj" where
  "write_traj full_trajectory flow_queue data dset =
     (if full_trajectory then
        (if length dset = length data then Inr data else Inl AssertionError)
      else if end_frame flow_queue - start_frame flow_queue \<noteq> int (length data)
      then Inl AssertionError
      else write_slice (start_frame flow_queue) (end_frame flow_queue) data dset)"

definition save_pixel_flow_trajectory ::
  "traj \<Rightarrow> FlowQueue \<Rightarrow> int option \<Rightarrow> string \<Rightarrow> bool \<Rightarrow> 'm sys \<Rightarrow> (error + unit) \<times> 'm sys" where
  "save_pixel_flow_trajectory data flow_queue size' prefix full_trajectory =
     raise_if_outside_context (\<lambda>(self, disk).
       let h5f = open_append disk;
           key = (h5_directory flow_queue, prefix);
           found =
             (case dsets h5f key of
                Some dset \<Rightarrow>
                  (if size' \<noteq> None \<and> size' \<noteq> Some (int (length dset))
                   then Inl AssertionError else Inr (dset, h5f))
              | None \<Rightarrow>
                  (case size' of
                     None \<Rightarrow> Inl AssertionError
                   | Some n \<Rightarrow>
                       if n < 0 then Inl ValueError
                       else (let dset = replicate (nat n) sentinel
                             in Inr (dset, h5f\<lparr>dsets := (dsets h5f)(key \<mapsto> dset)\<rparr>))))
       in case found of
            Inl e \<Rightarrow> (Inl e, (self, Some h5f))
          | Inr (dset, h5f') \<Rightarrow>
              (case write_traj full_trajectory flow_queue data dset of
                 Inl e \<Rightarrow> (Inl e, (self, Some h5f'))
               | Inr dset' \<Rightarrow>
                   (Inr (), (self, Some (h5f'\<lparr>dsets := (dsets h5f')(key \<mapsto> dset')\<rparr>)))))"

definition load_pixel_flow_trajectory ::
  "FlowQueue \<Rightarrow> string \<Rightarrow> bool \<Rightarrow> 'm sys \<Rightarrow> (error + traj) \<times> 'm sys" where
  "load_pixel_flow_trajectory flow_queue prefix full_trajectory =
     raise_if_outside_context (\<lambda>(self, disk).
       case disk of
         None \<Rightarrow> (Inl FileNotFoundError, (self, disk))
       | Some h5f \<Rightarrow>
           (case dsets h5f (h5_directory flow_queue, prefix) of
              None \<Rightarrow> (Inl KeyError, (self, disk))
            | Some dset \<Rightarrow>
                (Inr (if full_trajectory then dset
                      else read_slice (start_frame flow_queue) (end_frame flow_queue) dset),
                 (self, disk))))"

text \<open>The test that \<open>trim_trajectory\<close> makes on each queue.\<close>

definition trim_match :: "string \<Rightarrow> int \<Rightarrow> FlowQueue \<Rightarrow> bool" where
  "trim_match tag frame q = (get_tag q = tag \<and> frame \<ge> start_frame q \<and> frame \<le> end_frame q)"

text \<open>
  The loop of \<open>trim_trajectory\<close> over the queues still to visit.  It returns the
  outcome, the queues as the loop leaves them (a visited queue that matched has its
  frame moved) and the disk.  The loop has no \<open>break\<close>.
\<close>

fun trim_queues ::
  "'m TrackingData \<Rightarrow> string \<Rightarrow> int \<Rightarrow> string \<Rightarrow> bool \<Rightarrow> FlowQueue list \<Rightarrow> 'm h5file option
     \<Rightarrow> (error + unit) \<times> FlowQueue list \<times> 'm h5file option" where
  "trim_queues self tag frame prefix reverse [] disk = (Inr (), [], disk)"
| "trim_queues self tag frame prefix reverse (q # rest) disk =
     (if trim_match tag frame q then
        (case load_pixel_flow_trajectory q prefix False (self, disk) of
           (Inl e, s1) \<Rightarrow> (Inl e, q # rest, snd s1)
         | (Inr trajectory, s1) \<Rightarrow>
             (let relative_frame = frame - start_frame q;
                  bound = slice_bound relative_frame (length trajectory);
                  trajectory' =
                    (if reverse then fill_sentinel 0 bound trajectory
                     else fill_sentinel bound (length trajectory) trajectory)
              in case save_pixel_flow_trajectory trajectory' q None prefix False s1 of
                   (Inl e, s2) \<Rightarrow> (Inl e, q # rest, snd s2)
                 | (Inr u, s2) \<Rightarrow>
                     (let q' = (if reverse then q\<lparr>start_frame := frame\<rparr>
                                else q\<lparr>end_frame := frame\<rparr>)
                      in case trim_queues self tag frame prefix reverse rest (snd s2) of
                           (r, rest', disk') \<Rightarrow> (r, q' # rest', disk'))))
      else (case trim_queues self tag frame prefix reverse rest disk of
              (r, rest', disk') \<Rightarrow> (r, q # rest', disk')))"

definition trim_trajectory ::
  "string \<Rightarrow> int \<Rightarrow> string \<Rightarrow> bool \<Rightarrow> 'm sys \<Rightarrow> (error + unit) \<times> 'm sys" where
  "trim_trajectory tag frame prefix reverse =
     raise_if_outside_context (\<lambda>(self, disk).
       case trim_queues self tag frame prefix reverse (queues self) disk of
         (r, qs, disk') \<Rightarrow> (r, (self\<lparr>queues := qs\<rparr>, disk')))"

text \<open>
  Modelled from the spec: \<open>MarkerPositions.to_h5\<close> and \<open>MarkerPositions.from_h5\<close>,
  which store and read back the marker-position metadata, an opaque blob kept alongside
  the record table.
\<close>

definition to_h5 :: "'m \<Rightarrow> 'm h5file option \<Rightarrow> 'm h5file option" where
  "to_h5 mp disk = Some ((open_append disk)\<lparr>marker := Some mp\<rparr>)"

definition from_h5 :: "'m h5file \<Rightarrow> error + 'm" where
  "from_h5 h5f = (case marker h5f of None \<Rightarrow> Inl KeyError | Some mp \<Rightarrow> Inr mp)"

definition load :: "'m h5file option \<Rightarrow> error + 'm TrackingData" where
  "load disk =
     (case disk of
        None \<Rightarrow> Inl AssertionError
      | Some h5f \<Rightarrow>
          bind_err (from_h5 h5f) (\<lambda>mp.
            case table h5f of
              None \<Rightarrow> Inl KeyError
            | Some dset \<Rightarrow>
                bind_err (of_rows dset) (\<lambda>qs.
                  Inr \<lparr>queues = qs, marker_positions = mp, inside_context = False\<rparr>)))"

definition initialize :: "'m \<Rightarrow> 'm h5file option \<Rightarrow> error + 'm TrackingData" where
  "initialize mp disk =
     (case disk of None \<Rightarrow> Inr (TrackingData_init mp) | Some h5f \<Rightarrow> load disk)"

text \<open>
  \<open>create_template\<close>: a new file (mode \<open>w\<close>) with a record table of one row, then the
  marker positions.
\<close>

definition create_template :: "'m sys \<Rightarrow> (error + unit) \<times> 'm sys" where
  "create_template =
     raise_if_outside_context (\<lambda>(self, disk).
       (Inr (),
        (self,
         to_h5 (marker_positions self)
           (Some \<lparr>table = Some [zero_row], dsets = Map.empty, marker = None\<rparr>))))"

definition enter :: "'m sys \<Rightarrow> (error + unit) \<times> 'm sys" where
  "enter = (\<lambda>(self, disk).
     let self' = self\<lparr>inside_context := True\<rparr>
     in case disk of
          None \<Rightarrow> create_template (self', disk)
        | Some h5f \<Rightarrow> (Inr (), (self', disk)))"

text \<open>\<open>dset.resize((n,))\<close>: rows beyond \<open>n\<close> are dropped, new rows are zero.\<close>

definition resize :: "nat \<Rightarrow> qrow list \<Rightarrow> qrow list" where
  "resize n dset = take n dset @ replicate (n - length dset) zero_row"

text \<open>The loop of \<open>__exit__\<close>: \<open>dset[idx] = np.array(q)\<close> for each queue in turn.\<close>

fun write_rows :: "nat \<Rightarrow> FlowQueue list \<Rightarrow> qrow list \<Rightarrow> error option \<times> qrow list" where
  "write_rows idx [] dset = (None, dset)"
| "write_rows idx (q # qs) dset =
     (case to_row q of
        Inl e \<Rightarrow> (Some e, dset)
      | Inr r \<Rightarrow> write_rows (Suc idx) qs (dset[idx := r]))"

definition exit :: "'m sys \<Rightarrow> (error + unit) \<times> 'm sys" where
  "exit = (\<lambda>(self, disk).
     let h5f = open_append disk
     in case table h5f of
          None \<Rightarrow> (Inl KeyError, (self, Some h5f))
        | Some dset \<Rightarrow>
            (case write_rows 0 (queues self) (resize (length (queues self)) dset) of
               (Some e, dset') \<Rightarrow> (Inl e, (self, Some (h5f\<lparr>table := Some dset'\<rparr>)))
             | (None, dset') \<Rightarrow>
                 (Inr (),
                  (self\<lparr>inside_context := False\<rparr>, Some (h5f\<lparr>table := Some dset'\<rparr>)))))"

text \<open>The membership test and \<open>self.queues.index\<close> of \<open>append\<close>, both by \<open>__eq__\<close>.\<close>

definition contains :: "FlowQueue list \<Rightarrow> FlowQueue \<Rightarrow> bool" where
  "contains qs v = list_ex (\<lambda>q. FlowQueue_eq q v) qs"

fun index :: "FlowQueue list \<Rightarrow> FlowQueue \<Rightarrow> error + nat" where
  "index [] v = Inl ValueError"
| "index (q # qs) v =
     (if FlowQueue_eq q v then Inr 0 else bind_err (index qs v) (\<lambda>i. Inr (Suc i)))"

definition append_queue :: "FlowQueue \<Rightarrow> 'm sys \<Rightarrow> (error + unit) \<times> 'm sys" where
  "append_queue v =
     raise_if_outside_context (\<lambda>(self, disk).
       if contains (queues self) v then
         (case index (queues self) v of
            Inl e \<Rightarrow> (Inl e, (self, disk))
          | Inr idx \<Rightarrow> (Inr (), (self\<lparr>queues := (queues self)[idx := v]\<rparr>, disk)))
       else (Inr (), (self\<lparr>queues := queues self @ [v]\<rparr>, disk)))"

text \<open>The loop of \<open>get_flow_queues\<close>; each \<open>continue\<close> skips the queue.\<close>

fun filter_queues ::
  "int option \<Rightarrow> int option \<Rightarrow> bool \<Rightarrow> string option \<Rightarrow> FlowQueue list \<Rightarrow> FlowQueue list" where
  "filter_queues camera' start_frame' force_run_all tag [] = []"
| "filter_queues camera' start_frame' force_run_all tag (queue # rest) =
     (if camera' \<noteq> None \<and> Some (camera queue) \<noteq> camera'
      then filter_queues camera' start_frame' force_run_all tag rest
      else if start_frame' \<noteq> None \<and> Some (start_frame queue) \<noteq> start_frame'
      then filter_queues camera' start_frame' force_run_all tag rest
      else if tag \<noteq> None \<and> Some (get_tag queue) \<noteq> tag
      then filter_queues camera' start_frame' force_run_all tag rest
      else if done_flag queue \<and> \<not> force_run_all
      then filter_queues camera' start_frame' force_run_all tag rest
      else queue # filter_queues camera' start_frame' force_run_all tag rest)"

definition get_flow_queues ::
  "int option \<Rightarrow> int option \<Rightarrow> bool \<Rightarrow> string option \<Rightarrow> 'm sys
     \<Rightarrow> (error + FlowQueue list) \<times> 'm sys" where
  "get_flow_queues camera' start_frame' force_run_all tag =
     raise_if_outside_context (\<lambda>s.
       (Inr (filter_queues camera' start_frame' force_run_all tag (queues (fst s))), s))"

section \<open>Observations\<close>

text \<open>The trajectory dataset of a record, as the container holds it (if it does).\<close>

definition dataset_at :: "'m sys \<Rightarrow> FlowQueue \<Rightarrow> string \<Rightarrow> traj option" where
  "dataset_at s q prefix =
     (case snd s of None \<Rightarrow> None | Some h5f \<Rightarrow> dsets h5f (h5_directory q, prefix))"

text \<open>
  A record that the row schema holds exactly: the six integers fit 32 bits, and the label
  is ASCII, of at most ten bytes, and does not end in NUL.
\<close>

definition representable :: "FlowQueue \<Rightarrow> bool" where
  "representable q =
     (fits_i4 (fst (point q)) \<and> fits_i4 (snd (point q)) \<and> fits_i4 (start_frame q)
      \<and> fits_i4 (end_frame q) \<and> fits_i4 (camera q) \<and> fits_i4 (z_index q)
      \<and> list_all is_ascii (label q) \<and> length (label q) \<le> 10
      \<and> (label q = [] \<or> last (label q) \<noteq> NUL))"

text \<open>
  What one pass of the trimming loop does to a record that matches, and the rows of its
  dataset that the pass overwrites (by their index in the dataset).
\<close>

definition trim_record :: "int \<Rightarrow> bool \<Rightarrow> FlowQueue \<Rightarrow> FlowQueue" where
  "trim_record frame reverse q =
     (if reverse then q\<lparr>start_frame := frame\<rparr> else q\<lparr>end_frame := frame\<rparr>)"

definition trimmed_row :: "int \<Rightarrow> bool \<Rightarrow> FlowQueue \<Rightarrow> nat \<Rightarrow> bool" where
  "trimmed_row frame reverse q i =
     (if reverse then start_frame q \<le> int i \<and> int i < frame
      else frame \<le> int i \<and> int i < end_frame q)"

text \<open>
  The reading of the specification of \<open>trim_trajectory\<close>: the first record whose tag
  matches and whose span contains the frame is located, its rows are overwritten and its
  frame is moved; the other records and datasets stay as they are.
\<close>

definition trim_first_spec :: "string \<Rightarrow> int \<Rightarrow> string \<Rightarrow> bool \<Rightarrow> 'm sys \<Rightarrow> 'm sys" where
  "trim_first_spec tag frame prefix reverse = (\<lambda>(self, disk).
     case find (trim_match tag frame) (queues self) of
       None \<Rightarrow> (self, disk)
     | Some q \<Rightarrow>
         (let i = length (takeWhile (\<lambda>q. \<not> trim_match tag frame q) (queues self));
              key = (h5_directory q, prefix);
              rows = (\<lambda>d. if reverse then fill_sentinel (nat (start_frame q)) (nat frame) d
                          else fill_sentinel (nat frame) (nat (end_frame q)) d);
              disk' =
                map_option
                  (\<lambda>h5f. case dsets h5f key of
                            None \<Rightarrow> h5f
                          | Some d \<Rightarrow> h5f\<lparr>dsets := (dsets h5f)(key \<mapsto> rows d)\<rparr>)
                  disk
          in (self\<lparr>queues := (queues self)[i := trim_record frame reverse q]\<rparr>, disk')))"

section \<open>Example data\<close>

text \<open>
  The two records of the collision scenario: they differ in \<open>point\<close> only.
\<close>

definition queue_A :: FlowQueue where
  "queue_A = \<lparr>point = (1, 1), start_frame = 0, end_frame = 10, camera = 0, z_index = 0,
              label = ''m0'', done_flag = False\<rparr>"

definition queue_B :: FlowQueue where
  "queue_B = \<lparr>point = (5, 5), start_frame = 0, end_frame = 10, camera = 0, z_index = 0,
              label = ''m0'', done_flag = False\<rparr>"

text \<open>An acquired store, with no opinion on the marker positions.\<close>

definition acquired :: "FlowQueue list \<Rightarrow> unit TrackingData" where
  "acquired qs = \<lparr>queues = qs, marker_positions = (), inside_context = True\<rparr>"

text \<open>A container that holds trajectory datasets only.\<close>

definition file_with :: "(string \<times> string \<rightharpoonup> traj) \<Rightarrow> unit h5file" where
  "file_with ds = \<lparr>table = None, dsets = ds, marker = None\<rparr>"

text \<open>The container as \<open>create_template\<close> leaves it.\<close>

definition template_file :: "unit h5file" where
  "template_file = \<lparr>table = Some [zero_row], dsets = Map.empty, marker = Some ()\<rparr>"


text \<open>
  One marker seen by two cameras over the frames \<open>[0, 3)\<close>, and a container with a
  trajectory of three rows for each.
\<close>

definition queue_cam0 :: FlowQueue where
  "queue_cam0 = \<lparr>point = (1, 1), start_frame = 0, end_frame = 3, camera = 0, z_index = 0,
                 label = ''m0'', done_flag = False\<rparr>"

definition queue_cam1 :: FlowQueue where
  "queue_cam1 = \<lparr>point = (2, 2), start_frame = 0, end_frame = 3, camera = 1, z_index = 0,
                 label = ''m0'', done_flag = False\<rparr>"

definition two_camera_file :: "unit h5file" where
  "two_camera_file =
     file_with [(''/trajectory/camera_0/z_0/label_m0'', ''xy'') \<mapsto> [(10, 10), (11, 11), (12, 12)],
                (''/trajectory/camera_1/z_0/label_m0'', ''xy'') \<mapsto> [(20, 20), (21, 21), (22, 22)]]"


section \<open>Properties of the record object\<close>

lemma type_check_initialized: "type_check ''__initialized__'' v = None"
  by (simp add: type_check_def)

lemma type_check_fault:
  "type_check name v = Some err \<Longrightarrow>
     err = TypeError \<or> (err = AssertionError \<and> name = ''point'' \<and> (\<exists>vs. v = PTuple vs \<and> length vs \<noteq> 2))"
  by (auto simp: type_check_def split: if_splits pyval.splits)

lemma FlowQueue_init_cascade:
  "FlowQueue_init p s e c z l d =
     (case type_check ''point'' p of Some err \<Rightarrow> Inl err | None \<Rightarrow>
     (case type_check ''start_frame'' s of Some err \<Rightarrow> Inl err | None \<Rightarrow>
     (case type_check ''end_frame'' e of Some err \<Rightarrow> Inl err | None \<Rightarrow>
     (case type_check ''camera'' c of Some err \<Rightarrow> Inl err | None \<Rightarrow>
     (case type_check ''z_index'' z of Some err \<Rightarrow> Inl err | None \<Rightarrow>
     (case type_check ''label'' l of Some err \<Rightarrow> Inl err | None \<Rightarrow>
     (case type_check ''done'' d of Some err \<Rightarrow> Inl err | None \<Rightarrow>
        Inr [''point'' \<mapsto> p, ''start_frame'' \<mapsto> s, ''end_frame'' \<mapsto> e, ''camera'' \<mapsto> c,
             ''z_index'' \<mapsto> z, ''label'' \<mapsto> l, ''done'' \<mapsto> d,
             ''__initialized__'' \<mapsto> PBool True])))))))"
  by (simp add: FlowQueue_init_def field_args_def post_init_def setattr_def initialized_def
      static_variables_def Let_def type_check_initialized split: option.splits)

lemma FlowQueue_init_initialized:
  assumes "FlowQueue_init p s e c z l d = Inr self"
  shows "self ''__initialized__'' = Some (PBool True)"
  using assms by (auto simp: FlowQueue_init_cascade split: option.splits)

lemma setattr_static_constructed:
  assumes init: "self ''__initialized__'' = Some (PBool True)"
    and name: "name \<in> set static_variables"
    and ok: "type_check name v = None"
  shows "setattr self name v = (Some AttributeError, self(name \<mapsto> v))"
proof -
  from name have "name \<noteq> ''__initialized__''"
    by (auto simp: static_variables_def)
  with init have "initialized (self(name \<mapsto> v))"
    by (simp add: initialized_def)
  with name ok show ?thesis
    by (simp add: setattr_def)
qed

lemma setattr_mutable_constructed:
  assumes name: "name \<in> {''start_frame'', ''end_frame'', ''done''}"
    and ok: "type_check name v = None"
  shows "setattr self name v = (None, self(name \<mapsto> v))"
  using assms by (auto simp: setattr_def static_variables_def)

lemma setattr_ill_typed:
  "type_check name v = Some err \<Longrightarrow> setattr self name v = (Some err, self)"
  by (simp add: setattr_def)

lemma FlowQueue_init_typed:
  "FlowQueue_init (PTuple [PInt (fst (point q)), PInt (snd (point q))]) (PInt (start_frame q))
     (PInt (end_frame q)) (PInt (camera q)) (PInt (z_index q)) (PStr (label q))
     (PBool (done_flag q)) = Inr (obj_of q)"
  by (simp add: FlowQueue_init_cascade type_check_def obj_of_def)

lemma type_check_accepts:
  "(type_check ''point'' v = None \<longleftrightarrow>
      (\<exists>a b. v = PTuple [a, b] \<and> isinstance_int a \<and> isinstance_int b))
   \<and> (name \<in> {''start_frame'', ''end_frame'', ''camera'', ''z_index''} \<longrightarrow>
        (type_check name v = None \<longleftrightarrow> isinstance_int v))
   \<and> (type_check ''label'' v = None \<longleftrightarrow> isinstance_str v)
   \<and> (type_check ''done'' v = None \<longleftrightarrow> isinstance_bool v)"
proof -
  have "type_check ''point'' v = None \<longleftrightarrow>
      (\<exists>a b. v = PTuple [a, b] \<and> isinstance_int a \<and> isinstance_int b)"
  proof (cases v)
    case (PTuple vs)
    have "length vs = 2 \<longleftrightarrow> (\<exists>a b. vs = [a, b])"
      by (cases vs; cases "tl vs") auto
    then show ?thesis
      using PTuple by (auto simp: type_check_def)
  qed (simp_all add: type_check_def)
  then show ?thesis
    by (auto simp: type_check_def)
qed

lemma FlowQueue_init_queue_A:
  "FlowQueue_init (PTuple [PInt 1, PInt 1]) (PInt 0) (PInt 10) (PInt 0) (PInt 0) (PStr ''m0'')
     (PBool False) = Inr (obj_of queue_A)"
  using FlowQueue_init_typed [of queue_A] by (simp add: queue_A_def)

text \<open>
  Claim C6, as amended.  The constructor checks the fields in declaration order and
  raises the fault of the first check that fails, which is \<open>TypeError\<close>, or
  \<open>AssertionError\<close> when \<open>point\<close> is a tuple whose length is not 2; a construction
  whose checks all pass stores each value as it was passed.  A check accepts: for
  \<open>point\<close> a 2-tuple of \<open>int\<close> instances, for the frames, camera and z-index an
  \<open>int\<close> instance (which includes \<open>bool\<close>), for \<open>label\<close> a \<open>str\<close>, for \<open>done\<close> a
  \<open>bool\<close>.  After construction a type-correct assignment to an identity field raises
  \<open>AttributeError\<close>, an ill-typed assignment to any field raises the fault of its type
  check and leaves the object unchanged, and a type-correct assignment to
  \<open>start_frame\<close>, \<open>end_frame\<close> or \<open>done\<close> succeeds.
\<close>

theorem FlowQueue_validation:
  "FlowQueue_init p s e c z l d =
     (case type_check ''point'' p of Some err \<Rightarrow> Inl err | None \<Rightarrow>
     (case type_check ''start_frame'' s of Some err \<Rightarrow> Inl err | None \<Rightarrow>
     (case type_check ''end_frame'' e of Some err \<Rightarrow> Inl err | None \<Rightarrow>
     (case type_check ''camera'' c of Some err \<Rightarrow> Inl err | None \<Rightarrow>
     (case type_check ''z_index'' z of Some err \<Rightarrow> Inl err | None \<Rightarrow>
     (case type_check ''label'' l of Some err \<Rightarrow> Inl err | None \<Rightarrow>
     (case type_check ''done'' d of Some err \<Rightarrow> Inl err | None \<Rightarrow>
        Inr [''point'' \<mapsto> p, ''start_frame'' \<mapsto> s, ''end_frame'' \<mapsto> e, ''camera'' \<mapsto> c,
             ''z_index'' \<mapsto> z, ''label'' \<mapsto> l, ''done'' \<mapsto> d,
             ''__initialized__'' \<mapsto> PBool True])))))))
   \<and> (type_check ''point'' v = None \<longleftrightarrow>
        (\<exists>a b. v = PTuple [a, b] \<and> isinstance_int a \<and> isinstance_int b))
   \<and> (name \<in> {''start_frame'', ''end_frame'', ''camera'', ''z_index''} \<longrightarrow>
        (type_check name v = None \<longleftrightarrow> isinstance_int v))
   \<and> (type_check ''label'' v = None \<longleftrightarrow> isinstance_str v)
   \<and> (type_check ''done'' v = None \<longleftrightarrow> isinstance_bool v)
   \<and> (type_check name v = Some err \<longrightarrow>
        err = TypeError
        \<or> (err = AssertionError \<and> name = ''point'' \<and> (\<exists>vs. v = PTuple vs \<and> length vs \<noteq> 2)))
   \<and> (FlowQueue_init p s e c z l d = Inr self \<longrightarrow>
        (name \<in> set static_variables \<longrightarrow> type_check name v = None \<longrightarrow>
           fst (setattr self name v) = Some AttributeError)
      \<and> (type_check name v = Some err \<longrightarrow> setattr self name v = (Some err, self))
      \<and> (name \<in> {''start_frame'', ''end_frame'', ''done''} \<longrightarrow> type_check name v = None \<longrightarrow>
           setattr self name v = (None, self(name \<mapsto> v))))"
proof (intro conjI impI)
  assume "FlowQueue_init p s e c z l d = Inr self" and "name \<in> set static_variables"
    and "type_check name v = None"
  then show "fst (setattr self name v) = Some AttributeError"
    by (simp add: setattr_static_constructed FlowQueue_init_initialized)
qed (use type_check_accepts [of v name] in
      \<open>simp_all add: FlowQueue_init_cascade type_check_fault setattr_ill_typed
         setattr_mutable_constructed\<close>)

text \<open>
  Witness for C6: the record of the scenario is constructed; moving \<open>end_frame\<close>
  succeeds, renaming the label is refused, a 3-tuple as point fails, and a construction
  with \<open>None\<close> as \<open>end_frame\<close> raises \<open>TypeError\<close>.
\<close>

theorem FlowQueue_validation_witness:
  "FlowQueue_init (PTuple [PInt 1, PInt 1]) (PInt 0) (PInt 10) (PInt 0) (PInt 0) (PStr ''m0'')
     (PBool False) = Inr (obj_of queue_A)
   \<and> ''end_frame'' \<in> {''start_frame'', ''end_frame'', ''camera'', ''z_index''}
   \<and> type_check ''end_frame'' (PInt 30) = None
   \<and> ''end_frame'' \<in> {''start_frame'', ''end_frame'', ''done''}
   \<and> setattr (obj_of queue_A) ''end_frame'' (PInt 30)
       = (None, (obj_of queue_A)(''end_frame'' \<mapsto> PInt 30))
   \<and> ''label'' \<in> set static_variables
   \<and> type_check ''label'' (PStr ''m1'') = None
   \<and> fst (setattr (obj_of queue_A) ''label'' (PStr ''m1'')) = Some AttributeError
   \<and> type_check ''point'' (PTuple [PInt 1, PInt 2, PInt 3]) = Some AssertionError
   \<and> setattr (obj_of queue_A) ''point'' (PTuple [PInt 1, PInt 2, PInt 3])
       = (Some AssertionError, obj_of queue_A)
   \<and> FlowQueue_init (PTuple [PInt 1, PInt 1]) (PInt 0) PNone (PInt 0) (PInt 0) (PInt 5)
        (PBool False) = Inl TypeError"
  using FlowQueue_init_queue_A
    FlowQueue_validation [of "PTuple [PInt 1, PInt 1]" "PInt 0" "PInt 10" "PInt 0" "PInt 0"
      "PStr ''m0''" "PBool False" "PInt 30" "''end_frame''" TypeError "obj_of queue_A"]
    FlowQueue_validation [of "PTuple [PInt 1, PInt 1]" "PInt 0" "PInt 10" "PInt 0" "PInt 0"
      "PStr ''m0''" "PBool False" "PStr ''m1''" "''label''" TypeError "obj_of queue_A"]
    FlowQueue_validation [of "PTuple [PInt 1, PInt 1]" "PInt 0" "PInt 10" "PInt 0" "PInt 0"
      "PStr ''m0''" "PBool False" "PTuple [PInt 1, PInt 2, PInt 3]" "''point''" AssertionError
      "obj_of queue_A"]
    FlowQueue_validation [of "PTuple [PInt 1, PInt 1]" "PInt 0" PNone "PInt 0" "PInt 0"
      "PInt 5" "PBool False"]
  by (simp add: type_check_def static_variables_def)

text \<open>
  Counterexample for C6 as stated: assigning a string to \<open>camera\<close> after construction
  fails with \<open>TypeError\<close>, not with the immutability fault.
\<close>

theorem identity_assignment_fault_counterexample:
  "FlowQueue_init (PTuple [PInt 1, PInt 1]) (PInt 0) (PInt 10) (PInt 0) (PInt 0) (PStr ''m0'')
     (PBool False) = Inr (obj_of queue_A)
   \<and> fst (setattr (obj_of queue_A) ''camera'' (PStr ''x'')) = Some TypeError
   \<and> fst (setattr (obj_of queue_A) ''camera'' (PStr ''x'')) \<noteq> Some AttributeError"
  using FlowQueue_init_queue_A by (simp add: setattr_def type_check_def)

text \<open>
  Claim C9.  On a constructed record, a type-correct assignment to an identity field
  (\<open>point\<close>, \<open>camera\<close>, \<open>z_index\<close>, \<open>label\<close>) raises \<open>AttributeError\<close> after the
  attribute has been stored: the object that the failed call leaves holds the new value.
\<close>

theorem setattr_identity_field_not_rolled_back:
  assumes "FlowQueue_init p s e c z l d = Inr self"
    and "name \<in> set static_variables"
    and "type_check name v = None"
  shows "setattr self name v = (Some AttributeError, self(name \<mapsto> v))
         \<and> snd (setattr self name v) name = Some v"
proof -
  have "self ''__initialized__'' = Some (PBool True)"
    using assms(1) by (rule FlowQueue_init_initialized)
  then have "setattr self name v = (Some AttributeError, self(name \<mapsto> v))"
    using assms(2,3) by (rule setattr_static_constructed)
  then show ?thesis by simp
qed

text \<open>
  Witness for C9: \<open>camera\<close> of the scenario's record is 0; after the refused
  assignment of 7 it reads 7.
\<close>

theorem setattr_identity_field_not_rolled_back_witness:
  "FlowQueue_init (PTuple [PInt 1, PInt 1]) (PInt 0) (PInt 10) (PInt 0) (PInt 0) (PStr ''m0'')
     (PBool False) = Inr (obj_of queue_A)
   \<and> ''camera'' \<in> set static_variables
   \<and> type_check ''camera'' (PInt 7) = None
   \<and> obj_of queue_A ''camera'' = Some (PInt 0)
   \<and> setattr (obj_of queue_A) ''camera'' (PInt 7)
       = (Some AttributeError, (obj_of queue_A)(''camera'' \<mapsto> PInt 7))
   \<and> snd (setattr (obj_of queue_A) ''camera'' (PInt 7)) ''camera'' = Some (PInt 7)"
proof -
  have h2: "''camera'' \<in> set static_variables"
    by (simp add: static_variables_def)
  have h3: "type_check ''camera'' (PInt 7) = None"
    by (simp add: type_check_def)
  have h4: "obj_of queue_A ''camera'' = Some (PInt 0)"
    by (simp add: obj_of_def queue_A_def)
  show ?thesis
    using FlowQueue_init_queue_A h2 h3 h4
      setattr_identity_field_not_rolled_back [OF FlowQueue_init_queue_A h2 h3]
    by simp
qed

section \<open>Properties of the record collection\<close>

lemma FlowQueue_eq_iff:
  "FlowQueue_eq a b \<longleftrightarrow>
     point a = point b \<and> start_frame a = start_frame b \<and> end_frame a = end_frame b
     \<and> camera a = camera b \<and> z_index a = z_index b \<and> label a = label b"
  by (auto simp: FlowQueue_eq_def prod_eq_iff)

lemma index_first:
  "contains qs v \<Longrightarrow>
     \<exists>i. index qs v = Inr i \<and> i < length qs \<and> FlowQueue_eq (qs ! i) v
         \<and> (\<forall>j<i. \<not> FlowQueue_eq (qs ! j) v)"
proof (induction qs)
  case Nil
  then show ?case by (simp add: contains_def)
next
  case (Cons q qs)
  show ?case
  proof (cases "FlowQueue_eq q v")
    case True
    then show ?thesis by simp
  next
    case False
    with Cons.prems have "contains qs v" by (simp add: contains_def)
    then obtain i where i: "index qs v = Inr i" "i < length qs" "FlowQueue_eq (qs ! i) v"
      "\<forall>j<i. \<not> FlowQueue_eq (qs ! j) v"
      using Cons.IH by blast
    have "\<forall>j<Suc i. \<not> FlowQueue_eq ((q # qs) ! j) v"
      using False i(4) by (auto simp: less_Suc_eq_0_disj)
    with False i show ?thesis by auto
  qed
qed

text \<open>
  Claim C2.  Two records are equal iff \<open>point\<close>, \<open>start_frame\<close>, \<open>end_frame\<close>,
  \<open>camera\<close>, \<open>z_index\<close> and \<open>label\<close> agree (\<open>done\<close> plays no part).  In an acquired
  store, \<open>append\<close> of \<open>r\<close> replaces the first record equal to \<open>r\<close> at its position
  and keeps the length when there is one, and otherwise adds \<open>r\<close> at the end, the
  length growing by one.
\<close>

theorem append_upsert:
  assumes "inside_context self"
  shows "(FlowQueue_eq a b \<longleftrightarrow>
            point a = point b \<and> start_frame a = start_frame b \<and> end_frame a = end_frame b
            \<and> camera a = camera b \<and> z_index a = z_index b \<and> label a = label b)
    \<and> ((\<exists>q \<in> set (queues self). FlowQueue_eq q r) \<longrightarrow>
          (\<exists>i < length (queues self).
              FlowQueue_eq (queues self ! i) r
            \<and> (\<forall>j<i. \<not> FlowQueue_eq (queues self ! j) r)
            \<and> append_queue r (self, disk)
                = (Inr (), (self\<lparr>queues := (queues self)[i := r]\<rparr>, disk))
            \<and> length ((queues self)[i := r]) = length (queues self)
            \<and> (queues self)[i := r] ! i = r))
    \<and> ((\<forall>q \<in> set (queues self). \<not> FlowQueue_eq q r) \<longrightarrow>
          append_queue r (self, disk) = (Inr (), (self\<lparr>queues := queues self @ [r]\<rparr>, disk))
        \<and> length (queues self @ [r]) = length (queues self) + 1)"
proof (intro conjI impI)
  show "FlowQueue_eq a b \<longleftrightarrow>
            point a = point b \<and> start_frame a = start_frame b \<and> end_frame a = end_frame b
            \<and> camera a = camera b \<and> z_index a = z_index b \<and> label a = label b"
    by (rule FlowQueue_eq_iff)
next
  assume "\<exists>q \<in> set (queues self). FlowQueue_eq q r"
  then have c: "contains (queues self) r"
    by (simp add: contains_def list_ex_iff)
  then obtain i where i: "index (queues self) r = Inr i" "i < length (queues self)"
      "FlowQueue_eq (queues self ! i) r" "\<forall>j<i. \<not> FlowQueue_eq (queues self ! j) r"
    using index_first by blast
  have "append_queue r (self, disk) = (Inr (), (self\<lparr>queues := (queues self)[i := r]\<rparr>, disk))"
    using assms c i(1) by (simp add: append_queue_def raise_if_outside_context_def)
  with i show "\<exists>i < length (queues self).
              FlowQueue_eq (queues self ! i) r
            \<and> (\<forall>j<i. \<not> FlowQueue_eq (queues self ! j) r)
            \<and> append_queue r (self, disk)
                = (Inr (), (self\<lparr>queues := (queues self)[i := r]\<rparr>, disk))
            \<and> length ((queues self)[i := r]) = length (queues self)
            \<and> (queues self)[i := r] ! i = r"
    by auto
next
  assume "\<forall>q \<in> set (queues self). \<not> FlowQueue_eq q r"
  then have "\<not> contains (queues self) r"
    by (simp add: contains_def list_ex_iff)
  then show "append_queue r (self, disk) = (Inr (), (self\<lparr>queues := queues self @ [r]\<rparr>, disk))"
    using assms by (simp add: append_queue_def raise_if_outside_context_def)
next
  show "length (queues self @ [r]) = length (queues self) + 1" by simp
qed

text \<open>
  Witness for C2: onto a store holding record A, appending A with \<open>done\<close> set replaces
  it, and appending B (another point) adds a second record.
\<close>

theorem append_upsert_witness:
  "inside_context (acquired [queue_A])
   \<and> FlowQueue_eq queue_A (queue_A\<lparr>done_flag := True\<rparr>)
   \<and> append_queue (queue_A\<lparr>done_flag := True\<rparr>) (acquired [queue_A], None)
       = (Inr (), (acquired [queue_A\<lparr>done_flag := True\<rparr>], None))
   \<and> \<not> FlowQueue_eq queue_A queue_B
   \<and> append_queue queue_B (acquired [queue_A], None)
       = (Inr (), (acquired [queue_A, queue_B], None))"
proof -
  have h1: "inside_context (acquired [queue_A])"
    by (simp add: acquired_def)
  have h2: "\<exists>q \<in> set (queues (acquired [queue_A])). FlowQueue_eq q (queue_A\<lparr>done_flag := True\<rparr>)"
    by (simp add: acquired_def FlowQueue_eq_def)
  have h3: "\<forall>q \<in> set (queues (acquired [queue_A])). \<not> FlowQueue_eq q queue_B"
    by (simp add: acquired_def FlowQueue_eq_def queue_A_def queue_B_def)
  show ?thesis
    using h1 h2 h3
      append_upsert [OF h1, of queue_A queue_A "queue_A\<lparr>done_flag := True\<rparr>" None]
      append_upsert [OF h1, of queue_A queue_A queue_B None]
    by (auto simp: acquired_def FlowQueue_eq_def)
qed

lemma filter_queues_filter:
  "filter_queues cam sf force tag qs =
     filter (\<lambda>q. (cam = None \<or> cam = Some (camera q))
                \<and> (sf = None \<or> sf = Some (start_frame q))
                \<and> (tag = None \<or> tag = Some (get_tag q))
                \<and> (force \<or> \<not> done_flag q)) qs"
  by (induction qs) auto

text \<open>
  Claim C7.  In an acquired store \<open>get_flow_queues\<close> returns, in the order of the
  collection, exactly the records that pass every filter that is given (camera,
  start frame, tag) and are not done; with \<open>force_run_all\<close> the done ones are kept
  too.
\<close>

theorem get_flow_queues_filter:
  assumes "inside_context self"
  shows "get_flow_queues cam sf force tag (self, disk) =
     (Inr (filter (\<lambda>q. (cam = None \<or> cam = Some (camera q))
                \<and> (sf = None \<or> sf = Some (start_frame q))
                \<and> (tag = None \<or> tag = Some (get_tag q))
                \<and> (force \<or> \<not> done_flag q)) (queues self)), (self, disk))"
  using assms
  by (simp add: get_flow_queues_def raise_if_outside_context_def filter_queues_filter)

text \<open>
  Witness for C7: of three records, two on camera 2 and one of those done, the query for
  camera 2 returns the pending one, and both with \<open>force_run_all\<close>.
\<close>

theorem get_flow_queues_filter_witness:
  "inside_context (acquired [queue_A, queue_B\<lparr>camera := 2\<rparr>, queue_A\<lparr>camera := 2, done_flag := True\<rparr>])
   \<and> get_flow_queues (Some 2) None False None
        (acquired [queue_A, queue_B\<lparr>camera := 2\<rparr>, queue_A\<lparr>camera := 2, done_flag := True\<rparr>], None)
       = (Inr [queue_B\<lparr>camera := 2\<rparr>],
          (acquired [queue_A, queue_B\<lparr>camera := 2\<rparr>, queue_A\<lparr>camera := 2, done_flag := True\<rparr>], None))
   \<and> get_flow_queues (Some 2) None True None
        (acquired [queue_A, queue_B\<lparr>camera := 2\<rparr>, queue_A\<lparr>camera := 2, done_flag := True\<rparr>], None)
       = (Inr [queue_B\<lparr>camera := 2\<rparr>, queue_A\<lparr>camera := 2, done_flag := True\<rparr>],
          (acquired [queue_A, queue_B\<lparr>camera := 2\<rparr>, queue_A\<lparr>camera := 2, done_flag := True\<rparr>], None))"
proof -
  let ?st = "acquired [queue_A, queue_B\<lparr>camera := 2\<rparr>, queue_A\<lparr>camera := 2, done_flag := True\<rparr>]"
  have h1: "inside_context ?st"
    by (simp add: acquired_def)
  show ?thesis
    using h1 get_flow_queues_filter [OF h1, of "Some 2" None False None None]
      get_flow_queues_filter [OF h1, of "Some 2" None True None None]
    by (simp add: acquired_def queue_A_def queue_B_def)
qed

text \<open>
  Claim C5.  On a store that is not acquired, each of \<open>append\<close>, \<open>get_flow_queues\<close>,
  \<open>all_done\<close>, \<open>iter_cameras\<close>, \<open>save_pixel_flow_trajectory\<close>,
  \<open>load_pixel_flow_trajectory\<close>, \<open>trim_trajectory\<close> and \<open>create_template\<close> raises
  the lifecycle fault and leaves the store and the container as they were.
\<close>

theorem outside_context_fails:
  assumes "\<not> inside_context self"
  shows "append_queue r (self, disk) = (Inl ContextError, (self, disk))
    \<and> get_flow_queues cam sf force tag (self, disk) = (Inl ContextError, (self, disk))
    \<and> all_done (self, disk) = (Inl ContextError, (self, disk))
    \<and> iter_cameras (self, disk) = (Inl ContextError, (self, disk))
    \<and> save_pixel_flow_trajectory data r sz prefix full (self, disk)
         = (Inl ContextError, (self, disk))
    \<and> load_pixel_flow_trajectory r prefix full (self, disk) = (Inl ContextError, (self, disk))
    \<and> trim_trajectory tg frame prefix reverse (self, disk) = (Inl ContextError, (self, disk))
    \<and> create_template (self, disk) = (Inl ContextError, (self, disk))"
  using assms
  by (simp add: append_queue_def get_flow_queues_def all_done_def iter_cameras_def
      save_pixel_flow_trajectory_def load_pixel_flow_trajectory_def trim_trajectory_def
      create_template_def raise_if_outside_context_def)

text \<open>Witness for C5: a store that was never entered, with no container on disk.\<close>

theorem outside_context_fails_witness:
  "\<not> inside_context (TrackingData_init ())
   \<and> append_queue queue_A (TrackingData_init (), None) = (Inl ContextError, (TrackingData_init (), None))
   \<and> get_flow_queues None None False None (TrackingData_init (), None)
       = (Inl ContextError, (TrackingData_init (), None))
   \<and> all_done (TrackingData_init (), None) = (Inl ContextError, (TrackingData_init (), None))
   \<and> iter_cameras (TrackingData_init (), None) = (Inl ContextError, (TrackingData_init (), None))
   \<and> save_pixel_flow_trajectory [(3, 4)] queue_A (Some 10) ''xy'' False (TrackingData_init (), None)
       = (Inl ContextError, (TrackingData_init (), None))
   \<and> load_pixel_flow_trajectory queue_A ''xy'' False (TrackingData_init (), None)
       = (Inl ContextError, (TrackingData_init (), None))
   \<and> trim_trajectory ''z0-m0'' 5 ''xy'' False (TrackingData_init (), None)
       = (Inl ContextError, (TrackingData_init (), None))
   \<and> create_template (TrackingData_init (), None) = (Inl ContextError, (TrackingData_init (), None))"
proof -
  have h: "\<not> inside_context (TrackingData_init ())"
    by (simp add: TrackingData_init_def)
  show ?thesis
    using h outside_context_fails [OF h, of queue_A None None None False None "[(3, 4)]"
        "Some 10" "''xy''" False "''z0-m0''" 5 False]
    by simp
qed

section \<open>Properties of the trajectory datasets\<close>

lemma slice_bound_in_range: "0 \<le> i \<Longrightarrow> i \<le> int n \<Longrightarrow> slice_bound i n = nat i"
  by (simp add: slice_bound_def)

lemma write_slice_in_range:
  assumes "0 \<le> s" "s \<le> e" "e \<le> int (length d)" "int (length data) = e - s"
  shows "write_slice s e data d = Inr (take (nat s) d @ data @ drop (nat e) d)"
proof -
  have sb: "slice_bound s (length d) = nat s" "slice_bound e (length d) = nat e"
    using assms by (simp_all add: slice_bound_in_range)
  have len: "length data = nat e - nat s" and sum: "nat s + (nat e - nat s) = nat e"
    using assms by linarith+
  show ?thesis
  proof (cases "nat e - nat s = 0")
    case True
    with len sum have "data = []" and "nat s = nat e"
      by simp_all
    with True show ?thesis
      by (simp add: write_slice_def Let_def sb)
  next
    case False
    with len sum show ?thesis
      by (simp add: write_slice_def Let_def sb)
  qed
qed

lemma read_slice_written:
  assumes "0 \<le> s" "s \<le> e" "e \<le> int (length d)" "int (length data) = e - s"
  shows "read_slice s e (take (nat s) d @ data @ drop (nat e) d) = data"
proof -
  define d' where "d' = take (nat s) d @ data @ drop (nat e) d"
  have l1: "length (take (nat s) d) = nat s"
    using assms by simp
  have l2: "length data = nat e - nat s"
    using assms by linarith
  have len: "length d' = length d"
    unfolding d'_def using assms by (simp add: min_def) linarith
  have b1: "slice_bound s (length d') = nat s"
    using assms len by (simp add: slice_bound_in_range)
  have b2: "slice_bound e (length d') = nat e"
    using assms len by (simp add: slice_bound_in_range)
  have "drop (nat s) d' = data @ drop (nat e) d"
    unfolding d'_def using l1 by (metis append_eq_conv_conj)
  then have "take (nat e - nat s) (drop (nat s) d') = data"
    using l2 by simp
  then have "read_slice s e d' = data"
    by (simp add: read_slice_def Let_def b1 b2)
  then show ?thesis
    by (simp only: d'_def)
qed

lemma save_inside:
  assumes "inside_context self"
  shows "save_pixel_flow_trajectory data q sz prefix full (self, disk) =
    (let h5f = open_append disk; key = (h5_directory q, prefix) in
     case dsets h5f key of
       Some dset \<Rightarrow>
         if sz \<noteq> None \<and> sz \<noteq> Some (int (length dset)) then (Inl AssertionError, (self, Some h5f))
         else (case write_traj full q data dset of
                 Inl e \<Rightarrow> (Inl e, (self, Some h5f))
               | Inr dset' \<Rightarrow> (Inr (), (self, Some (h5f\<lparr>dsets := (dsets h5f)(key \<mapsto> dset')\<rparr>))))
     | None \<Rightarrow>
         (case sz of
            None \<Rightarrow> (Inl AssertionError, (self, Some h5f))
          | Some n \<Rightarrow>
              if n < 0 then (Inl ValueError, (self, Some h5f))
              else (case write_traj full q data (replicate (nat n) sentinel) of
                 Inl e \<Rightarrow> (Inl e, (self, Some (h5f\<lparr>dsets := (dsets h5f)(key \<mapsto> replicate (nat n) sentinel)\<rparr>)))
               | Inr dset' \<Rightarrow> (Inr (), (self, Some (h5f\<lparr>dsets := (dsets h5f)(key \<mapsto> dset')\<rparr>))))))"
  using assms
  by (simp add: save_pixel_flow_trajectory_def raise_if_outside_context_def Let_def
      split: option.splits sum.splits)

lemma load_inside:
  assumes "inside_context self"
  shows "load_pixel_flow_trajectory q prefix full (self, disk) =
    (case disk of
       None \<Rightarrow> (Inl FileNotFoundError, (self, disk))
     | Some h5f \<Rightarrow>
         (case dsets h5f (h5_directory q, prefix) of
            None \<Rightarrow> (Inl KeyError, (self, disk))
          | Some dset \<Rightarrow>
              (Inr (if full then dset else read_slice (start_frame q) (end_frame q) dset),
               (self, disk))))"
  using assms
  by (simp add: load_pixel_flow_trajectory_def raise_if_outside_context_def)

lemma save_success:
  assumes "save_pixel_flow_trajectory data q sz prefix full (self, disk) = (Inr (), s')"
  shows "inside_context self \<and>
    (\<exists>h5f' dset'. s' = (self, Some h5f') \<and> dsets h5f' (h5_directory q, prefix) = Some dset'
       \<and> (full \<longrightarrow> dset' = data)
       \<and> (\<forall>k. k \<noteq> (h5_directory q, prefix) \<longrightarrow> dsets h5f' k = dsets (open_append disk) k))"
proof -
  have inside: "inside_context self"
    using assms
    by (auto simp: save_pixel_flow_trajectory_def raise_if_outside_context_def split: if_splits)
  show ?thesis
    using assms inside
    by (auto simp: save_inside Let_def write_traj_def split: option.splits if_splits sum.splits)
qed

lemma dataset_at_open_append:
  "dsets (open_append disk) (h5_directory q, prefix) = dataset_at (self, disk) q prefix"
  by (simp add: dataset_at_def open_append_def empty_file_def split: option.splits)

lemma save_size_mandatory:
  assumes "inside_context self" and "dataset_at (self, disk) q prefix = None"
  shows "fst (save_pixel_flow_trajectory A q None prefix full (self, disk)) = Inl AssertionError"
  using assms(2)
  by (simp add: save_inside [OF assms(1)] Let_def dataset_at_open_append [of disk q prefix self])

lemma save_existing_roundtrip:
  assumes inside: "inside_context self"
    and rows: "int (length A) = end_frame q - start_frame q"
    and ds: "dataset_at (self, disk) q prefix = Some d"
    and lo: "0 \<le> start_frame q" and hi: "end_frame q \<le> int (length d)"
    and sz: "sz = None \<or> sz = Some (int (length d))"
  shows "\<exists>h5f'. save_pixel_flow_trajectory A q sz prefix False (self, disk)
                  = (Inr (), (self, Some h5f'))
    \<and> dsets h5f' (h5_directory q, prefix)
        = Some (take (nat (start_frame q)) d @ A @ drop (nat (end_frame q)) d)
    \<and> load_pixel_flow_trajectory q prefix False (self, Some h5f') = (Inr A, (self, Some h5f'))"
proof -
  have le: "start_frame q \<le> end_frame q"
    using rows by linarith
  have w: "write_traj False q A d
             = Inr (take (nat (start_frame q)) d @ A @ drop (nat (end_frame q)) d)"
    using rows by (simp add: write_traj_def write_slice_in_range [OF lo le hi rows])
  have r: "read_slice (start_frame q) (end_frame q)
             (take (nat (start_frame q)) d @ A @ drop (nat (end_frame q)) d) = A"
    by (rule read_slice_written [OF lo le hi rows])
  have d: "dsets (open_append disk) (h5_directory q, prefix) = Some d"
    using ds by (simp add: dataset_at_open_append [of disk q prefix self])
  have s: "save_pixel_flow_trajectory A q sz prefix False (self, disk)
      = (Inr (), (self, Some ((open_append disk)\<lparr>dsets := (dsets (open_append disk))
           ((h5_directory q, prefix) \<mapsto>
              take (nat (start_frame q)) d @ A @ drop (nat (end_frame q)) d)\<rparr>)))"
    using sz by (auto simp: save_inside [OF inside] Let_def d w)
  show ?thesis
    unfolding s
    by (intro exI [of _ "(open_append disk)\<lparr>dsets := (dsets (open_append disk))
           ((h5_directory q, prefix) \<mapsto>
              take (nat (start_frame q)) d @ A @ drop (nat (end_frame q)) d)\<rparr>"])
      (simp add: load_inside [OF inside] r)
qed

lemma save_created_roundtrip:
  assumes inside: "inside_context self"
    and rows: "int (length A) = end_frame q - start_frame q"
    and ds: "dataset_at (self, disk) q prefix = None"
    and lo: "0 \<le> start_frame q" and hi: "end_frame q \<le> n"
  shows "\<exists>h5f'. save_pixel_flow_trajectory A q (Some n) prefix False (self, disk)
                  = (Inr (), (self, Some h5f'))
    \<and> dsets h5f' (h5_directory q, prefix)
        = Some (replicate (nat (start_frame q)) sentinel @ A
                @ replicate (nat (n - end_frame q)) sentinel)
    \<and> load_pixel_flow_trajectory q prefix False (self, Some h5f') = (Inr A, (self, Some h5f'))"
proof -
  let ?d = "replicate (nat n) sentinel"
  let ?d' = "replicate (nat (start_frame q)) sentinel @ A @ replicate (nat (n - end_frame q)) sentinel"
  have le: "start_frame q \<le> end_frame q"
    using rows by linarith
  have n: "0 \<le> n" and hi': "end_frame q \<le> int (length ?d)"
    using lo le hi by simp_all
  have eq: "take (nat (start_frame q)) ?d @ A @ drop (nat (end_frame q)) ?d = ?d'"
    using lo le hi by (simp add: min_def nat_diff_distrib)
  have w: "write_traj False q A ?d = Inr ?d'"
    using rows eq by (simp add: write_traj_def write_slice_in_range [OF lo le hi' rows])
  have r: "read_slice (start_frame q) (end_frame q) ?d' = A"
    using read_slice_written [OF lo le hi' rows] eq by simp
  have d: "dsets (open_append disk) (h5_directory q, prefix) = None"
    using ds by (simp add: dataset_at_open_append [of disk q prefix self])
  have s: "save_pixel_flow_trajectory A q (Some n) prefix False (self, disk)
      = (Inr (), (self, Some ((open_append disk)\<lparr>dsets := (dsets (open_append disk))
           ((h5_directory q, prefix) \<mapsto> ?d')\<rparr>)))"
    using n by (simp add: save_inside [OF inside] Let_def d w)
  show ?thesis
    unfolding s
    by (intro exI [of _ "(open_append disk)\<lparr>dsets := (dsets (open_append disk))
           ((h5_directory q, prefix) \<mapsto> ?d')\<rparr>"])
      (simp add: load_inside [OF inside] r)
qed

lemma save_size_mismatch:
  assumes "inside_context self" and "dataset_at (self, disk) q prefix = Some d"
    and "n \<noteq> int (length d)"
  shows "fst (save_pixel_flow_trajectory B q (Some n) prefix full (self, disk))
           = Inl AssertionError"
  using assms(2,3)
  by (simp add: save_inside [OF assms(1)] Let_def dataset_at_open_append [of disk q prefix self])

lemma save_rows_mismatch:
  assumes "inside_context self" and "int (length B) \<noteq> end_frame q - start_frame q"
    and "\<forall>n. sz = Some n \<longrightarrow> 0 \<le> n"
  shows "fst (save_pixel_flow_trajectory B q sz prefix False (self, disk)) = Inl AssertionError"
  using assms(2,3)
  by (auto simp: save_inside [OF assms(1)] Let_def write_traj_def split: option.splits)

lemma save_full_mismatch:
  assumes "inside_context self"
    and "\<forall>d. dataset_at (self, disk) q prefix = Some d \<longrightarrow> length B \<noteq> length d"
    and "\<forall>n. sz = Some n \<longrightarrow> 0 \<le> n \<and> length B \<noteq> nat n"
  shows "fst (save_pixel_flow_trajectory B q sz prefix True (self, disk)) = Inl AssertionError"
  using assms(2,3)
  by (auto simp: save_inside [OF assms(1)] Let_def write_traj_def
      dataset_at_open_append [of disk q prefix self] split: option.splits)

text \<open>
  Claim C4, as amended.  In an acquired store, for an array \<open>A\<close> with
  \<open>end_frame - start_frame\<close> rows: when the record has no dataset yet, saving
  without \<open>size\<close> fails the assertion, and saving with \<open>size = n\<close>, for
  \<open>0 \<le> start_frame\<close> and \<open>end_frame \<le> n\<close>, creates a dataset of \<open>n\<close> rows that holds
  \<open>A\<close> in \<open>[start_frame, end_frame)\<close> and the sentinel elsewhere; when a dataset of
  the right length exists with \<open>end_frame\<close> inside it, \<open>A\<close> replaces that slice and the
  other rows stay; in both cases loading with the same record returns \<open>A\<close>.  A
  \<open>size\<close> that differs from an existing dataset's length, a row count that differs
  from the span, and a full trajectory that differs from the dataset's length each fail
  the assertion.
\<close>

theorem save_load_trajectory:
  assumes "inside_context self"
    and "int (length A) = end_frame q - start_frame q"
  shows "(dataset_at (self, disk) q prefix = None \<longrightarrow>
            fst (save_pixel_flow_trajectory A q None prefix full (self, disk))
              = Inl AssertionError)
    \<and> (dataset_at (self, disk) q prefix = None \<longrightarrow> 0 \<le> start_frame q \<longrightarrow> end_frame q \<le> n \<longrightarrow>
          (\<exists>h5f'. save_pixel_flow_trajectory A q (Some n) prefix False (self, disk)
                    = (Inr (), (self, Some h5f'))
              \<and> dsets h5f' (h5_directory q, prefix)
                  = Some (replicate (nat (start_frame q)) sentinel @ A
                          @ replicate (nat (n - end_frame q)) sentinel)
              \<and> load_pixel_flow_trajectory q prefix False (self, Some h5f')
                  = (Inr A, (self, Some h5f'))))
    \<and> (dataset_at (self, disk) q prefix = Some d \<longrightarrow> 0 \<le> start_frame q \<longrightarrow>
        end_frame q \<le> int (length d) \<longrightarrow> sz = None \<or> sz = Some (int (length d)) \<longrightarrow>
          (\<exists>h5f'. save_pixel_flow_trajectory A q sz prefix False (self, disk)
                    = (Inr (), (self, Some h5f'))
              \<and> dsets h5f' (h5_directory q, prefix)
                  = Some (take (nat (start_frame q)) d @ A @ drop (nat (end_frame q)) d)
              \<and> load_pixel_flow_trajectory q prefix False (self, Some h5f')
                  = (Inr A, (self, Some h5f'))))
    \<and> (dataset_at (self, disk) q prefix = Some d \<longrightarrow> n \<noteq> int (length d) \<longrightarrow>
          fst (save_pixel_flow_trajectory B q (Some n) prefix full (self, disk))
            = Inl AssertionError)
    \<and> (int (length B) \<noteq> end_frame q - start_frame q \<longrightarrow> (\<forall>m. sz = Some m \<longrightarrow> 0 \<le> m) \<longrightarrow>
          fst (save_pixel_flow_trajectory B q sz prefix False (self, disk))
            = Inl AssertionError)
    \<and> ((\<forall>d. dataset_at (self, disk) q prefix = Some d \<longrightarrow> length B \<noteq> length d) \<longrightarrow>
        (\<forall>m. sz = Some m \<longrightarrow> 0 \<le> m \<and> length B \<noteq> nat m) \<longrightarrow>
          fst (save_pixel_flow_trajectory B q sz prefix True (self, disk))
            = Inl AssertionError)"
proof (intro conjI impI)
  show "fst (save_pixel_flow_trajectory A q None prefix full (self, disk)) = Inl AssertionError"
    if "dataset_at (self, disk) q prefix = None"
    using assms(1) that by (rule save_size_mandatory)
  show "\<exists>h5f'. save_pixel_flow_trajectory A q (Some n) prefix False (self, disk)
                    = (Inr (), (self, Some h5f'))
              \<and> dsets h5f' (h5_directory q, prefix)
                  = Some (replicate (nat (start_frame q)) sentinel @ A
                          @ replicate (nat (n - end_frame q)) sentinel)
              \<and> load_pixel_flow_trajectory q prefix False (self, Some h5f')
                  = (Inr A, (self, Some h5f'))"
    if "dataset_at (self, disk) q prefix = None" "0 \<le> start_frame q" "end_frame q \<le> n"
    using assms that by (rule save_created_roundtrip)
  show "\<exists>h5f'. save_pixel_flow_trajectory A q sz prefix False (self, disk)
                    = (Inr (), (self, Some h5f'))
              \<and> dsets h5f' (h5_directory q, prefix)
                  = Some (take (nat (start_frame q)) d @ A @ drop (nat (end_frame q)) d)
              \<and> load_pixel_flow_trajectory q prefix False (self, Some h5f')
                  = (Inr A, (self, Some h5f'))"
    if "dataset_at (self, disk) q prefix = Some d" "0 \<le> start_frame q"
      "end_frame q \<le> int (length d)" "sz = None \<or> sz = Some (int (length d))"
    using assms that by (rule save_existing_roundtrip)
  show "fst (save_pixel_flow_trajectory B q (Some n) prefix full (self, disk))
            = Inl AssertionError"
    if "dataset_at (self, disk) q prefix = Some d" "n \<noteq> int (length d)"
    using assms(1) that by (rule save_size_mismatch)
  show "fst (save_pixel_flow_trajectory B q sz prefix False (self, disk)) = Inl AssertionError"
    if "int (length B) \<noteq> end_frame q - start_frame q" "\<forall>m. sz = Some m \<longrightarrow> 0 \<le> m"
    using assms(1) that by (rule save_rows_mismatch)
  show "fst (save_pixel_flow_trajectory B q sz prefix True (self, disk)) = Inl AssertionError"
    if "\<forall>d. dataset_at (self, disk) q prefix = Some d \<longrightarrow> length B \<noteq> length d"
      "\<forall>m. sz = Some m \<longrightarrow> 0 \<le> m \<and> length B \<noteq> nat m"
    using assms(1) that by (rule save_full_mismatch)
qed

text \<open>
  Witness for C4: the span \<open>[1, 3)\<close> in a new dataset of four rows, then the three
  mismatches.
\<close>

theorem save_load_trajectory_witness:
  "inside_context (acquired [])
   \<and> int (length [(3, 4), (5, 6 :: int)])
       = end_frame (queue_A\<lparr>start_frame := 1, end_frame := 3\<rparr>)
         - start_frame (queue_A\<lparr>start_frame := 1, end_frame := 3\<rparr>)
   \<and> dataset_at (acquired [], None) (queue_A\<lparr>start_frame := 1, end_frame := 3\<rparr>) ''xy'' = None
   \<and> fst (save_pixel_flow_trajectory [(3, 4), (5, 6)] (queue_A\<lparr>start_frame := 1, end_frame := 3\<rparr>)
             None ''xy'' False (acquired [], None)) = Inl AssertionError
   \<and> save_pixel_flow_trajectory [(3, 4), (5, 6)] (queue_A\<lparr>start_frame := 1, end_frame := 3\<rparr>)
        (Some 4) ''xy'' False (acquired [], None)
       = (Inr (), (acquired [],
            Some (file_with [(h5_directory queue_A, ''xy'') \<mapsto> [(- 1, - 1), (3, 4), (5, 6), (- 1, - 1)]])))
   \<and> load_pixel_flow_trajectory (queue_A\<lparr>start_frame := 1, end_frame := 3\<rparr>) ''xy'' False
        (acquired [],
         Some (file_with [(h5_directory queue_A, ''xy'') \<mapsto> [(- 1, - 1), (3, 4), (5, 6), (- 1, - 1)]]))
       = (Inr [(3, 4), (5, 6)],
          (acquired [],
           Some (file_with [(h5_directory queue_A, ''xy'') \<mapsto> [(- 1, - 1), (3, 4), (5, 6), (- 1, - 1)]])))
   \<and> fst (save_pixel_flow_trajectory [(9, 9)] (queue_A\<lparr>start_frame := 1, end_frame := 3\<rparr>)
             (Some 4) ''xy'' False (acquired [], None)) = Inl AssertionError
   \<and> fst (save_pixel_flow_trajectory [(3, 4), (5, 6)] (queue_A\<lparr>start_frame := 1, end_frame := 3\<rparr>)
             (Some 5) ''xy'' False
             (acquired [],
              Some (file_with [(h5_directory queue_A, ''xy'') \<mapsto> [(- 1, - 1), (3, 4), (5, 6), (- 1, - 1)]])))
       = Inl AssertionError"
proof -
  let ?q = "queue_A\<lparr>start_frame := 1, end_frame := 3\<rparr>"
  let ?A = "[(3, 4), (5, 6 :: int)]"
  let ?f = "file_with [(h5_directory queue_A, ''xy'') \<mapsto> [(- 1, - 1), (3, 4), (5, 6), (- 1, - 1)]]"
  have inside: "inside_context (acquired [])"
    by (simp add: acquired_def)
  have rows: "int (length ?A) = end_frame ?q - start_frame ?q"
    by simp
  have path: "h5_directory ?q = h5_directory queue_A"
    by (simp add: h5_directory_def)
  have none: "dataset_at (acquired [], None) ?q ''xy'' = None"
    by (simp add: dataset_at_def)
  have some: "dataset_at (acquired [], Some ?f) ?q ''xy'' = Some [(- 1, - 1), (3, 4), (5, 6), (- 1, - 1)]"
    by (simp add: dataset_at_def file_with_def path)
  have sv: "save_pixel_flow_trajectory ?A ?q (Some 4) ''xy'' False (acquired [], None)
       = (Inr (), (acquired [], Some ?f))"
    by (simp add: save_inside [OF inside] Let_def open_append_def empty_file_def file_with_def
        write_traj_def write_slice_def slice_bound_def sentinel_def path eval_nat_numeral)
  have ld: "load_pixel_flow_trajectory ?q ''xy'' False (acquired [], Some ?f)
       = (Inr ?A, (acquired [], Some ?f))"
    by (simp add: load_inside [OF inside] file_with_def path read_slice_def slice_bound_def
        Let_def eval_nat_numeral)
  note thm1 = save_load_trajectory [OF inside rows, where disk = None and prefix = "''xy''"
      and full = False and n = 4 and B = "[(9, 9)]" and sz = "Some 4"
      and d = "[]"]
  note thm2 = save_load_trajectory [OF inside rows, where disk = "Some ?f" and prefix = "''xy''"
      and full = False and n = 5 and B = ?A and sz = None
      and d = "[(- 1, - 1), (3, 4), (5, 6), (- 1, - 1)]"]
  have a: "fst (save_pixel_flow_trajectory ?A ?q None ''xy'' False (acquired [], None))
             = Inl AssertionError"
    using thm1 none by blast
  have b: "fst (save_pixel_flow_trajectory [(9, 9)] ?q (Some 4) ''xy'' False (acquired [], None))
             = Inl AssertionError"
    using thm1 by simp
  have c: "fst (save_pixel_flow_trajectory ?A ?q (Some 5) ''xy'' False (acquired [], Some ?f))
             = Inl AssertionError"
    using thm2 some by simp
  from inside rows none a sv ld b c show ?thesis
    by blast
qed

text \<open>
  Counterexample for C4 as stated: a record with span \<open>[0, 2)\<close>, an array of two rows
  and \<open>size = 1\<close>.  The dataset is created with one sentinel row, and writing two rows
  into the clipped selection is refused; nothing of \<open>A\<close> is stored.
\<close>

theorem save_span_beyond_dataset_counterexample:
  "inside_context (acquired [])
   \<and> int (length [(3, 4), (5, 6 :: int)])
       = end_frame (queue_A\<lparr>end_frame := 2\<rparr>) - start_frame (queue_A\<lparr>end_frame := 2\<rparr>)
   \<and> dataset_at (acquired [], None) (queue_A\<lparr>end_frame := 2\<rparr>) ''xy'' = None
   \<and> fst (save_pixel_flow_trajectory [(3, 4), (5, 6)] (queue_A\<lparr>end_frame := 2\<rparr>) (Some 1)
             ''xy'' False (acquired [], None)) = Inl BroadcastError
   \<and> dataset_at (snd (save_pixel_flow_trajectory [(3, 4), (5, 6)] (queue_A\<lparr>end_frame := 2\<rparr>)
                         (Some 1) ''xy'' False (acquired [], None)))
        (queue_A\<lparr>end_frame := 2\<rparr>) ''xy'' = Some [(- 1, - 1)]"
proof -
  have inside: "inside_context (acquired [])"
    by (simp add: acquired_def)
  show ?thesis
    using inside
    by (simp add: save_inside [OF inside] Let_def open_append_def empty_file_def
        write_traj_def write_slice_def slice_bound_def sentinel_def dataset_at_def queue_A_def)
qed

text \<open>
  Claim C8.  Two records that agree on \<open>camera\<close>, \<open>z_index\<close> and \<open>label\<close> have the
  same storage path and the same tag \<open>z{z_index}-{label}\<close>, whatever their points;
  after one record's trajectory is saved and then the other's with
  \<open>full_trajectory=True\<close>, the dataset of the first holds the second's data.
\<close>

theorem same_path_collision:
  assumes "camera a = camera b" and "z_index a = z_index b" and "label a = label b"
  shows "h5_directory a = h5_directory b
    \<and> get_tag a = get_tag b
    \<and> get_tag a = ''z'' @ str_int (z_index a) @ ''-'' @ label a
    \<and> (save_pixel_flow_trajectory dA a szA prefix fullA s0 = (Inr (), s1) \<longrightarrow>
        save_pixel_flow_trajectory dB b szB prefix True s1 = (Inr (), s2) \<longrightarrow>
          dataset_at s1 a prefix \<noteq> None
        \<and> dataset_at s2 a prefix = Some dB
        \<and> dataset_at s2 b prefix = Some dB
        \<and> load_pixel_flow_trajectory a prefix True s2 = (Inr dB, s2))"
proof -
  have path: "h5_directory a = h5_directory b"
    using assms by (simp add: h5_directory_def)
  have tag: "get_tag a = get_tag b"
    using assms by (simp add: get_tag_def)
  have fmt: "get_tag a = ''z'' @ str_int (z_index a) @ ''-'' @ label a"
    by (simp add: get_tag_def)
  have coll: "dataset_at s1 a prefix \<noteq> None \<and> dataset_at s2 a prefix = Some dB
      \<and> dataset_at s2 b prefix = Some dB
      \<and> load_pixel_flow_trajectory a prefix True s2 = (Inr dB, s2)"
    if one: "save_pixel_flow_trajectory dA a szA prefix fullA s0 = (Inr (), s1)"
      and two: "save_pixel_flow_trajectory dB b szB prefix True s1 = (Inr (), s2)"
  proof -
    obtain self0 disk0 where s0: "s0 = (self0, disk0)" by (cases s0)
    obtain self1 disk1 where s1: "s1 = (self1, disk1)" by (cases s1)
    from save_success [OF one [unfolded s0]]
    have first: "dataset_at s1 a prefix \<noteq> None"
      by (auto simp: dataset_at_def)
    from save_success [OF two [unfolded s1]]
    obtain h5f' where inside: "inside_context self1" and s2: "s2 = (self1, Some h5f')"
      and ds: "dsets h5f' (h5_directory b, prefix) = Some dB"
      by auto
    show ?thesis
      using first inside s2 ds path by (simp add: dataset_at_def load_inside)
  qed
  from path tag fmt coll show ?thesis by blast
qed

text \<open>
  Witness for C8: records A and B of the scenario; B's full trajectory replaces A's.
\<close>

theorem same_path_collision_witness:
  "camera queue_A = camera queue_B \<and> z_index queue_A = z_index queue_B
   \<and> label queue_A = label queue_B \<and> point queue_A \<noteq> point queue_B
   \<and> h5_directory queue_A = h5_directory queue_B
   \<and> save_pixel_flow_trajectory [(1, 1), (2, 2)] queue_A (Some 2) ''xy'' True
        (acquired [queue_A, queue_B], None)
       = (Inr (), (acquired [queue_A, queue_B],
                   Some (file_with [(h5_directory queue_A, ''xy'') \<mapsto> [(1, 1), (2, 2)]])))
   \<and> save_pixel_flow_trajectory [(7, 7), (8, 8)] queue_B None ''xy'' True
        (acquired [queue_A, queue_B],
         Some (file_with [(h5_directory queue_A, ''xy'') \<mapsto> [(1, 1), (2, 2)]]))
       = (Inr (), (acquired [queue_A, queue_B],
                   Some (file_with [(h5_directory queue_A, ''xy'') \<mapsto> [(7, 7), (8, 8)]])))
   \<and> dataset_at (acquired [queue_A, queue_B],
                   Some (file_with [(h5_directory queue_A, ''xy'') \<mapsto> [(7, 7), (8, 8)]]))
         queue_A ''xy'' = Some [(7, 7), (8, 8)]
   \<and> load_pixel_flow_trajectory queue_A ''xy'' True
        (acquired [queue_A, queue_B],
         Some (file_with [(h5_directory queue_A, ''xy'') \<mapsto> [(7, 7), (8, 8)]]))
       = (Inr [(7, 7), (8, 8)],
          (acquired [queue_A, queue_B],
           Some (file_with [(h5_directory queue_A, ''xy'') \<mapsto> [(7, 7), (8, 8)]])))"
proof -
  let ?st = "acquired [queue_A, queue_B]"
  let ?f1 = "file_with [(h5_directory queue_A, ''xy'') \<mapsto> [(1, 1), (2, 2)]]"
  let ?f2 = "file_with [(h5_directory queue_A, ''xy'') \<mapsto> [(7, 7), (8, 8)]]"
  have h1: "camera queue_A = camera queue_B" and h2: "z_index queue_A = z_index queue_B"
    and h3: "label queue_A = label queue_B" and h4: "point queue_A \<noteq> point queue_B"
    by (simp_all add: queue_A_def queue_B_def)
  have path: "h5_directory queue_B = h5_directory queue_A"
    using h1 h2 h3 by (simp add: h5_directory_def)
  have inside: "inside_context ?st"
    by (simp add: acquired_def)
  have one: "save_pixel_flow_trajectory [(1, 1), (2, 2)] queue_A (Some 2) ''xy'' True (?st, None)
       = (Inr (), (?st, Some ?f1))"
    by (simp add: save_inside [OF inside] Let_def open_append_def empty_file_def file_with_def
        write_traj_def sentinel_def numeral_2_eq_2)
  have two: "save_pixel_flow_trajectory [(7, 7), (8, 8)] queue_B None ''xy'' True (?st, Some ?f1)
       = (Inr (), (?st, Some ?f2))"
    by (simp add: save_inside [OF inside] Let_def open_append_def file_with_def
        write_traj_def path)
  have "dataset_at (?st, Some ?f2) queue_A ''xy'' = Some [(7, 7), (8, 8)]
      \<and> load_pixel_flow_trajectory queue_A ''xy'' True (?st, Some ?f2)
          = (Inr [(7, 7), (8, 8)], (?st, Some ?f2))"
    using one two
      same_path_collision [OF h1 h2 h3, where dA = "[(1, 1), (2, 2)]" and szA = "Some 2"
        and prefix = "''xy''" and fullA = True and ?s0.0 = "(?st, None)"
        and ?s1.0 = "(?st, Some ?f1)" and dB = "[(7, 7), (8, 8)]" and szB = None
        and ?s2.0 = "(?st, Some ?f2)"]
    by blast
  with h1 h2 h3 h4 path [symmetric] one two show ?thesis
    by blast
qed

section \<open>Properties of the record table\<close>

lemma from_S10_padded:
  assumes "s = [] \<or> last s \<noteq> NUL"
  shows "from_S10 (s @ replicate k NUL) = s"
proof -
  have "dropWhile (\<lambda>c. c = NUL) (replicate k NUL @ rev s) = rev s"
  proof (cases s rule: rev_cases)
    case Nil
    then show ?thesis by (simp add: dropWhile_replicate)
  next
    case (snoc ys y)
    with assms have "y \<noteq> NUL" by simp
    with snoc show ?thesis
      by (simp add: dropWhile_append3)
  qed
  then show ?thesis
    by (simp add: from_S10_def)
qed

lemma to_row_representable:
  assumes "representable q"
  shows "to_row q =
     Inr \<lparr>row_point = point q, row_start_frame = start_frame q, row_end_frame = end_frame q,
          row_camera = camera q, row_z_index = z_index q,
          row_label = label q @ replicate (10 - length (label q)) NUL,
          row_done = done_flag q\<rparr>"
  using assms by (simp add: representable_def to_row_def to_i4_def to_S10_def)

lemma of_row_to_row:
  assumes "representable q" and "to_row q = Inr r"
  shows "of_row r = Inr q"
proof -
  have "from_S10 (label q @ replicate (10 - length (label q)) NUL) = label q"
    using assms(1) by (intro from_S10_padded) (simp add: representable_def)
  moreover have "list_all is_ascii (label q)"
    using assms(1) by (simp add: representable_def)
  ultimately show ?thesis
    using assms(2) by (auto simp: to_row_representable [OF assms(1)] of_row_def decode_def)
qed

lemma write_rows_success:
  assumes "write_rows idx qs dset = (None, dset')" and "idx + length qs \<le> length dset"
  shows "\<exists>rows. map to_row qs = map Inr rows
           \<and> dset' = take idx dset @ rows @ drop (idx + length qs) dset"
  using assms
proof (induction qs arbitrary: idx dset)
  case Nil
  then show ?case by simp
next
  case (Cons q qs)
  from Cons.prems(1) obtain r where r: "to_row q = Inr r"
    and rest: "write_rows (Suc idx) qs (dset[idx := r]) = (None, dset')"
    by (auto split: sum.splits)
  from Cons.prems(2) have len: "Suc idx + length qs \<le> length (dset[idx := r])"
    by simp
  from Cons.IH [OF rest len] obtain rows where rows: "map to_row qs = map Inr rows"
    and d': "dset' = take (Suc idx) (dset[idx := r]) @ rows
                @ drop (Suc idx + length qs) (dset[idx := r])"
    by blast
  have idx: "idx < length dset"
    using Cons.prems(2) by simp
  have "take (Suc idx) (dset[idx := r]) = take idx dset @ [r]"
    using idx by (simp add: take_Suc_conv_app_nth)
  moreover have "drop (Suc idx + length qs) (dset[idx := r]) = drop (idx + length (q # qs)) dset"
    by simp
  ultimately have "dset' = take idx dset @ (r # rows) @ drop (idx + length (q # qs)) dset"
    using d' by simp
  moreover have "map to_row (q # qs) = map Inr (r # rows)"
    using r rows by simp
  ultimately show ?case by blast
qed

lemma write_rows_representable:
  assumes "\<forall>q \<in> set qs. representable q"
  shows "\<exists>dset'. write_rows idx qs dset = (None, dset')"
  using assms
proof (induction qs arbitrary: idx dset)
  case Nil
  then show ?case by simp
next
  case (Cons q qs)
  then show ?case
    by (simp add: to_row_representable)
qed

lemma length_resize: "length (resize n dset) = n"
  by (simp add: resize_def)

lemma flush_rows:
  assumes "write_rows 0 qs (resize (length qs) t) = (None, dset')"
  shows "map to_row qs = map Inr dset'"
proof -
  from write_rows_success [OF assms] obtain rows where rows: "map to_row qs = map Inr rows"
    and d': "dset' = take 0 (resize (length qs) t) @ rows
               @ drop (0 + length qs) (resize (length qs) t)"
    by (auto simp: length_resize)
  then show ?thesis
    by (simp add: length_resize)
qed

lemma of_rows_roundtrip:
  assumes "\<forall>q \<in> set qs. representable q" and "map to_row qs = map Inr rows"
  shows "of_rows rows = Inr qs"
  using assms
proof (induction qs arbitrary: rows)
  case Nil
  then show ?case by simp
next
  case (Cons q qs)
  from Cons.prems(2) obtain r rs where rows: "rows = r # rs" and r: "to_row q = Inr r"
    and rs: "map to_row qs = map Inr rs"
    by (cases rows) auto
  have "of_row r = Inr q"
    using Cons.prems(1) r by (simp add: of_row_to_row)
  moreover have "of_rows rs = Inr qs"
    using Cons.prems(1) rs by (simp add: Cons.IH)
  ultimately show ?case
    using rows by simp
qed


text \<open>
  Entering the scope when there is no container creates one with a record table and the
  marker positions, which is what the flush and the load rely on.
\<close>

lemma enter_creates_template:
  "enter (self, None)
     = (Inr (),
        (self\<lparr>inside_context := True\<rparr>,
         Some \<lparr>table = Some [zero_row], dsets = Map.empty,
               marker = Some (marker_positions self)\<rparr>))"
  by (simp add: enter_def create_template_def raise_if_outside_context_def to_h5_def
      open_append_def Let_def)

lemma representable_queue_A: "representable queue_A"
  by (simp add: representable_def queue_A_def fits_i4_def is_ascii_def NUL_def)

lemma representable_queue_B_done: "representable (queue_B\<lparr>done_flag := True\<rparr>)"
  by (simp add: representable_def queue_B_def fits_i4_def is_ascii_def NUL_def)

text \<open>
  Claim C3, as amended.  For a store whose container has a record table and marker
  positions, and whose records are representable in the row schema (each integer fits
  32 bits; each label is ASCII, at most 10 bytes long, and does not end in NUL), the
  flush on scope exit succeeds and leaves a table of exactly \<open>len(records)\<close> rows, the
  serialisations of the records in their order in memory; loading that container gives
  back the same records, \<open>done\<close> included, in the same order.
\<close>

theorem flush_load_roundtrip:
  assumes "\<forall>q \<in> set (queues self). representable q"
    and "table h5f = Some t" and "marker h5f = Some mp"
  shows "\<exists>rows. exit (self, Some h5f)
                  = (Inr (), (self\<lparr>inside_context := False\<rparr>, Some (h5f\<lparr>table := Some rows\<rparr>)))
           \<and> map to_row (queues self) = map Inr rows
           \<and> length rows = length (queues self)
           \<and> load (Some (h5f\<lparr>table := Some rows\<rparr>))
               = Inr \<lparr>queues = queues self, marker_positions = mp, inside_context = False\<rparr>"
proof -
  obtain rows where w: "write_rows 0 (queues self) (resize (length (queues self)) t) = (None, rows)"
    using write_rows_representable [OF assms(1)] by blast
  then have m: "map to_row (queues self) = map Inr rows"
    by (rule flush_rows)
  then have len: "length rows = length (queues self)"
    by (metis length_map)
  have rt: "of_rows rows = Inr (queues self)"
    using assms(1) m by (rule of_rows_roundtrip)
  have ex: "exit (self, Some h5f)
      = (Inr (), (self\<lparr>inside_context := False\<rparr>, Some (h5f\<lparr>table := Some rows\<rparr>)))"
    using assms(2) w by (simp add: exit_def open_append_def Let_def)
  have ld: "load (Some (h5f\<lparr>table := Some rows\<rparr>))
      = Inr \<lparr>queues = queues self, marker_positions = mp, inside_context = False\<rparr>"
    using assms(3) rt by (simp add: load_def from_h5_def)
  from ex m len ld show ?thesis by blast
qed

text \<open>
  Witness for C3: records A and B (B done) flushed into a fresh template and loaded.
\<close>

theorem flush_load_roundtrip_witness:
  "representable queue_A \<and> representable (queue_B\<lparr>done_flag := True\<rparr>)
   \<and> table template_file = Some [zero_row] \<and> marker template_file = Some ()
   \<and> fst (exit (acquired [queue_A, queue_B\<lparr>done_flag := True\<rparr>], Some template_file)) = Inr ()
   \<and> load (snd (snd (exit (acquired [queue_A, queue_B\<lparr>done_flag := True\<rparr>], Some template_file))))
       = Inr \<lparr>queues = [queue_A, queue_B\<lparr>done_flag := True\<rparr>], marker_positions = (),
              inside_context = False\<rparr>"
proof -
  let ?st = "acquired [queue_A, queue_B\<lparr>done_flag := True\<rparr>]"
  have h1: "\<forall>q \<in> set (queues ?st). representable q"
    by (simp add: acquired_def representable_queue_A representable_queue_B_done)
  have h2: "table template_file = Some [zero_row]" and h3: "marker template_file = Some ()"
    by (simp_all add: template_file_def)
  have q: "queues ?st = [queue_A, queue_B\<lparr>done_flag := True\<rparr>]"
    by (simp add: acquired_def)
  from flush_load_roundtrip [OF h1 h2 h3]
  have "fst (exit (?st, Some template_file)) = Inr ()
     \<and> load (snd (snd (exit (?st, Some template_file))))
         = Inr \<lparr>queues = queues ?st, marker_positions = (), inside_context = False\<rparr>"
    by auto
  with representable_queue_A representable_queue_B_done h2 h3 q show ?thesis
    by simp
qed

text \<open>
  Counterexample for C3 as stated: a record with the label \<open>m0\<close> and
  \<open>end_frame = 2147483648\<close>.  The value does not fit the \<open>i4\<close> field, the flush
  raises, and the container does not load back to that record.
\<close>

theorem flush_overflow_counterexample:
  "length (label (queue_A\<lparr>end_frame := 2147483648\<rparr>)) \<le> 10
   \<and> table template_file = Some [zero_row] \<and> marker template_file = Some ()
   \<and> fst (exit (acquired [queue_A\<lparr>end_frame := 2147483648\<rparr>], Some template_file))
       = Inl OverflowError
   \<and> load (snd (snd (exit (acquired [queue_A\<lparr>end_frame := 2147483648\<rparr>], Some template_file))))
       \<noteq> Inr \<lparr>queues = [queue_A\<lparr>end_frame := 2147483648\<rparr>], marker_positions = (),
               inside_context = False\<rparr>"
  by (simp add: queue_A_def template_file_def exit_def open_append_def Let_def acquired_def
      resize_def to_row_def to_i4_def fits_i4_def load_def from_h5_def of_row_def zero_row_def
      from_S10_def decode_def)

section \<open>Labels longer than the row schema\<close>














section \<open>Properties of trimming\<close>

lemma fill_sentinel_rows:
  assumes "lo \<le> hi" and "hi \<le> length d"
  shows "length (fill_sentinel lo hi d) = length d"
    and "i < length d \<Longrightarrow>
         fill_sentinel lo hi d ! i = (if lo \<le> i \<and> i < hi then sentinel else d ! i)"
proof -
  show "length (fill_sentinel lo hi d) = length d"
    using assms by (auto simp: fill_sentinel_def max_def min_def)
  assume i: "i < length d"
  have m: "max lo hi = hi"
    using assms by simp
  consider "i < lo" | "lo \<le> i" "i < hi" | "hi \<le> i"
    by linarith
  then show "fill_sentinel lo hi d ! i = (if lo \<le> i \<and> i < hi then sentinel else d ! i)"
  proof cases
    case 1
    then show ?thesis
      using assms i by (simp add: fill_sentinel_def nth_append)
  next
    case 2
    then have "\<not> i < lo" "i - lo < hi - lo"
      by linarith+
    then show ?thesis
      using assms i 2 by (simp add: fill_sentinel_def m nth_append min_def)
  next
    case 3
    then have "\<not> i < lo" "\<not> i - lo < hi - lo" "i - lo - (hi - lo) = i - hi"
      using assms by linarith+
    then show ?thesis
      using assms i 3 by (simp add: fill_sentinel_def m nth_append min_def)
  qed
qed

lemma length_take_drop:
  fixes a c :: nat
  assumes "a \<le> c" and "c \<le> length d"
  shows "length (take (c - a) (drop a d)) = c - a"
  using assms by simp

lemma fill_forward_nat:
  fixes a b c :: nat
  assumes "a \<le> b" and "b \<le> c" and "c \<le> length d"
  shows "take a d @ fill_sentinel (b - a) (c - a) (take (c - a) (drop a d)) @ drop c d
         = fill_sentinel b c d"
proof -
  have "fill_sentinel (b - a) (c - a) (take (c - a) (drop a d))
          = take (b - a) (drop a d) @ replicate (c - b) sentinel"
    using assms by (simp add: fill_sentinel_def max_def min_def)
  moreover have "take a d @ take (b - a) (drop a d) = take b d"
    using assms by (metis le_add_diff_inverse take_add)
  ultimately show ?thesis
    using assms by (simp add: fill_sentinel_def max_def flip: append_assoc)
qed

lemma fill_reverse_nat:
  fixes a b c :: nat
  assumes "a \<le> b" and "b \<le> c" and "c \<le> length d"
  shows "take a d @ fill_sentinel 0 (b - a) (take (c - a) (drop a d)) @ drop c d
         = fill_sentinel a b d"
proof -
  have "drop (b - a) (take (c - a) (drop a d)) = take (c - b) (drop b d)"
    using assms by (simp add: drop_take)
  then have "fill_sentinel 0 (b - a) (take (c - a) (drop a d))
          = replicate (b - a) sentinel @ take (c - b) (drop b d)"
    by (simp add: fill_sentinel_def)
  moreover have "take (c - b) (drop b d) @ drop c d = drop b d"
  proof -
    have "drop (c - b) (drop b d) = drop c d"
      using assms by simp
    then show ?thesis
      by (metis append_take_drop_id)
  qed
  ultimately show ?thesis
    using assms by (simp add: fill_sentinel_def max_def)
qed

lemma length_fill_sentinel:
  assumes "lo \<le> hi" and "hi \<le> length d"
  shows "length (fill_sentinel lo hi d) = length d"
  using assms by (auto simp: fill_sentinel_def max_def min_def)

text \<open>One pass of the loop on a matching record, seen on its dataset.\<close>

lemma trim_rows:
  assumes "0 \<le> s" "s \<le> f" "f \<le> e" "e \<le> int (length d)"
  shows "write_slice s e
           (if reverse
            then fill_sentinel 0 (slice_bound (f - s) (length (read_slice s e d)))
                   (read_slice s e d)
            else fill_sentinel (slice_bound (f - s) (length (read_slice s e d)))
                   (length (read_slice s e d)) (read_slice s e d)) d
         = Inr (if reverse then fill_sentinel (nat s) (nat f) d
                else fill_sentinel (nat f) (nat e) d)"
proof -
  let ?a = "nat s" and ?b = "nat f" and ?c = "nat e"
  let ?tr = "take (?c - ?a) (drop ?a d)"
  have ab: "?a \<le> ?b" and bc: "?b \<le> ?c" and cl: "?c \<le> length d" and ac: "?a \<le> ?c"
    using assms by linarith+
  have sb: "slice_bound s (length d) = ?a" "slice_bound e (length d) = ?c"
    using assms by (simp_all add: slice_bound_in_range)
  have rs: "read_slice s e d = ?tr"
    by (simp add: read_slice_def Let_def sb)
  have len: "length ?tr = ?c - ?a"
    using ac cl by (rule length_take_drop)
  have r1: "0 \<le> f - s" and r2: "f - s \<le> int (?c - ?a)" and r3: "nat (f - s) = ?b - ?a"
    using assms by linarith+
  have rel: "slice_bound (f - s) (?c - ?a) = ?b - ?a"
    using slice_bound_in_range [OF r1 r2] r3 by simp
  have sum: "?a + (?c - ?a) = ?c"
    using ac by (rule le_add_diff_inverse)
  have ba: "?b - ?a \<le> ?c - ?a"
    using bc by (rule diff_le_mono)
  have se: "s \<le> e" and il: "int (?c - ?a) = e - s"
    using assms by linarith+
  show ?thesis
  proof (cases reverse)
    case True
    let ?new = "fill_sentinel 0 (?b - ?a) ?tr"
    have "?b - ?a \<le> length ?tr"
      unfolding len by (rule ba)
    then have "length ?new = length ?tr"
      by (intro length_fill_sentinel) simp
    then have l: "length ?new = ?c - ?a"
      using len by (rule trans)
    have "int (length ?new) = e - s"
      unfolding l by (rule il)
    then have "write_slice s e ?new d = Inr (take ?a d @ ?new @ drop ?c d)"
      by (rule write_slice_in_range [OF assms(1) se assms(4)])
    then have "write_slice s e ?new d = Inr (fill_sentinel ?a ?b d)"
      by (simp only: fill_reverse_nat [OF ab bc cl])
    then show ?thesis
      using True by (simp only: rs len rel if_True)
  next
    case False
    let ?new = "fill_sentinel (?b - ?a) (?c - ?a) ?tr"
    have "?c - ?a \<le> length ?tr"
      unfolding len by (rule order_refl)
    with ba have "length ?new = length ?tr"
      by (rule length_fill_sentinel)
    then have l: "length ?new = ?c - ?a"
      using len by (rule trans)
    have "int (length ?new) = e - s"
      unfolding l by (rule il)
    then have "write_slice s e ?new d = Inr (take ?a d @ ?new @ drop ?c d)"
      by (rule write_slice_in_range [OF assms(1) se assms(4)])
    then have "write_slice s e ?new d = Inr (fill_sentinel ?b ?c d)"
      by (simp only: fill_forward_nat [OF ab bc cl])
    then show ?thesis
      using False by (simp only: rs len rel if_False)
  qed
qed

lemma slice_bound_le: "slice_bound i n \<le> n"
  by (auto simp: slice_bound_def)

lemma pass_rows:
  assumes match: "trim_match tag frame q" and lo: "0 \<le> start_frame q"
    and hi: "end_frame q \<le> int (length d)"
  shows "length (if reverse then fill_sentinel (nat (start_frame q)) (nat frame) d
                 else fill_sentinel (nat frame) (nat (end_frame q)) d) = length d"
    and "i < length d \<Longrightarrow>
         (if reverse then fill_sentinel (nat (start_frame q)) (nat frame) d
          else fill_sentinel (nat frame) (nat (end_frame q)) d) ! i
           = (if trimmed_row frame reverse q i then sentinel else d ! i)"
proof -
  have sf: "start_frame q \<le> frame" and fe: "frame \<le> end_frame q"
    using match by (simp_all add: trim_match_def)
  have o1: "nat (start_frame q) \<le> nat frame" and o2: "nat frame \<le> nat (end_frame q)"
    and o3: "nat (end_frame q) \<le> length d" and o4: "nat frame \<le> length d"
    using lo hi sf fe by linarith+
  show "length (if reverse then fill_sentinel (nat (start_frame q)) (nat frame) d
                 else fill_sentinel (nat frame) (nat (end_frame q)) d) = length d"
    using length_fill_sentinel [OF o1 o4] length_fill_sentinel [OF o2 o3] by simp
  assume i: "i < length d"
  have r: "(nat (start_frame q) \<le> i \<and> i < nat frame) = (start_frame q \<le> int i \<and> int i < frame)"
    using lo sf by linarith
  have n: "(nat frame \<le> i \<and> i < nat (end_frame q)) = (frame \<le> int i \<and> int i < end_frame q)"
    using lo sf fe by linarith
  show "(if reverse then fill_sentinel (nat (start_frame q)) (nat frame) d
          else fill_sentinel (nat frame) (nat (end_frame q)) d) ! i
           = (if trimmed_row frame reverse q i then sentinel else d ! i)"
  proof (cases reverse)
    case True
    then show ?thesis
      using fill_sentinel_rows(2) [OF o1 o4 i] r by (simp add: trimmed_row_def)
  next
    case False
    then show ?thesis
      using fill_sentinel_rows(2) [OF o2 o3 i] n by (simp add: trimmed_row_def)
  qed
qed

text \<open>One pass of the loop on a matching record, seen on the container.\<close>

lemma trim_pass:
  assumes inside: "inside_context self"
    and match: "trim_match tag frame q"
    and ds: "dsets h5f (h5_directory q, prefix) = Some d"
    and lo: "0 \<le> start_frame q" and hi: "end_frame q \<le> int (length d)"
  shows "trim_queues self tag frame prefix reverse (q # rest) (Some h5f) =
     (case trim_queues self tag frame prefix reverse rest
             (Some (h5f\<lparr>dsets := (dsets h5f)((h5_directory q, prefix) \<mapsto>
                (if reverse then fill_sentinel (nat (start_frame q)) (nat frame) d
                 else fill_sentinel (nat frame) (nat (end_frame q)) d))\<rparr>)) of
        (r, rest', disk') \<Rightarrow> (r, trim_record frame reverse q # rest', disk'))"
proof -
  let ?s = "start_frame q" and ?e = "end_frame q"
  let ?tr = "read_slice ?s ?e d"
  let ?new = "if reverse then fill_sentinel 0 (slice_bound (frame - ?s) (length ?tr)) ?tr
              else fill_sentinel (slice_bound (frame - ?s) (length ?tr)) (length ?tr) ?tr"
  let ?d1 = "if reverse then fill_sentinel (nat ?s) (nat frame) d
             else fill_sentinel (nat frame) (nat ?e) d"
  have sf: "?s \<le> frame" and fe: "frame \<le> ?e"
    using match by (simp_all add: trim_match_def)
  have ld: "load_pixel_flow_trajectory q prefix False (self, Some h5f)
              = (Inr ?tr, (self, Some h5f))"
    by (simp add: load_inside [OF inside] ds)
  have w: "write_slice ?s ?e ?new d = Inr ?d1"
    by (rule trim_rows [OF lo sf fe hi])
  have se: "?s \<le> ?e"
    using sf fe by simp
  have sb: "slice_bound ?s (length d) = nat ?s" "slice_bound ?e (length d) = nat ?e"
    using lo se hi by (simp_all add: slice_bound_in_range)
  have ltr: "length ?tr = nat ?e - nat ?s"
  proof -
    have "nat ?s \<le> nat ?e" "nat ?e \<le> length d"
      using lo se hi by linarith+
    then have "length (take (nat ?e - nat ?s) (drop (nat ?s) d)) = nat ?e - nat ?s"
      by (rule length_take_drop)
    then show ?thesis
      by (simp add: read_slice_def Let_def sb)
  qed
  have lnew: "length ?new = length ?tr"
  proof -
    have "slice_bound (frame - ?s) (length ?tr) \<le> length ?tr"
      by (rule slice_bound_le)
    then show ?thesis
      using length_fill_sentinel [of 0 "slice_bound (frame - ?s) (length ?tr)" ?tr]
        length_fill_sentinel [of "slice_bound (frame - ?s) (length ?tr)" "length ?tr" ?tr]
      by simp
  qed
  have l3: "length ?new = nat ?e - nat ?s"
    using lnew ltr by (rule trans)
  have l4: "int (nat ?e - nat ?s) = ?e - ?s"
    using lo se by linarith
  have rows: "?e - ?s = int (length ?new)"
    unfolding l3 using l4 by (rule sym)
  have wt: "write_traj False q ?new d = Inr ?d1"
    using rows w by (simp add: write_traj_def)
  have sv: "save_pixel_flow_trajectory ?new q None prefix False (self, Some h5f)
      = (Inr (), (self, Some (h5f\<lparr>dsets := (dsets h5f)((h5_directory q, prefix) \<mapsto> ?d1)\<rparr>)))"
    by (simp only: save_inside [OF inside] Let_def open_append_def option.case ds wt sum.case)
      simp
  show ?thesis
    by (simp only: trim_queues.simps match if_True ld prod.case sum.case Let_def)
      (simp only: sv prod.case sum.case snd_conv trim_record_def split: if_splits)
qed

lemma trim_queues_no_match:
  assumes "\<forall>q \<in> set qs. \<not> trim_match tag frame q"
  shows "trim_queues self tag frame prefix reverse qs disk = (Inr (), qs, disk)"
  using assms by (induction qs) simp_all

lemma trim_queues_all:
  assumes inside: "inside_context self"
    and H: "\<forall>q \<in> set qs. trim_match tag frame q \<longrightarrow>
              (\<exists>d. dsets h5f (h5_directory q, prefix) = Some d \<and> 0 \<le> start_frame q
                   \<and> end_frame q \<le> int (length d))"
  shows "\<exists>h5f'. trim_queues self tag frame prefix reverse qs (Some h5f)
            = (Inr (), map (\<lambda>q. if trim_match tag frame q then trim_record frame reverse q else q) qs,
               Some h5f')
        \<and> table h5f' = table h5f \<and> marker h5f' = marker h5f
        \<and> (\<forall>k. dsets h5f k = None \<longrightarrow> dsets h5f' k = None)
        \<and> (\<forall>k d. dsets h5f k = Some d \<longrightarrow>
              (\<exists>d'. dsets h5f' k = Some d' \<and> length d' = length d
                 \<and> (\<forall>i < length d. d' ! i =
                       (if \<exists>q \<in> set qs. trim_match tag frame q \<and> (h5_directory q, prefix) = k
                                          \<and> trimmed_row frame reverse q i
                        then sentinel else d ! i))))"
  using H
proof (induction qs arbitrary: h5f)
  case Nil
  then show ?case by simp
next
  case (Cons q rest)
  let ?g = "\<lambda>q. if trim_match tag frame q then trim_record frame reverse q else q"
  show ?case
  proof (cases "trim_match tag frame q")
    case False
    have H': "\<forall>q \<in> set rest. trim_match tag frame q \<longrightarrow>
              (\<exists>d. dsets h5f (h5_directory q, prefix) = Some d \<and> 0 \<le> start_frame q
                   \<and> end_frame q \<le> int (length d))"
      using Cons.prems by simp
    from Cons.IH [OF H'] obtain h5f' where
      run: "trim_queues self tag frame prefix reverse rest (Some h5f) = (Inr (), map ?g rest, Some h5f')"
      and tb: "table h5f' = table h5f" and mk: "marker h5f' = marker h5f"
      and none: "\<forall>k. dsets h5f k = None \<longrightarrow> dsets h5f' k = None"
      and some: "\<forall>k d. dsets h5f k = Some d \<longrightarrow>
              (\<exists>d'. dsets h5f' k = Some d' \<and> length d' = length d
                 \<and> (\<forall>i < length d. d' ! i =
                       (if \<exists>q \<in> set rest. trim_match tag frame q \<and> (h5_directory q, prefix) = k
                                          \<and> trimmed_row frame reverse q i
                        then sentinel else d ! i)))"
      by blast
    have r: "trim_queues self tag frame prefix reverse (q # rest) (Some h5f)
               = (Inr (), map ?g (q # rest), Some h5f')"
      using False run by simp
    have ex: "(\<exists>q' \<in> set (q # rest). trim_match tag frame q' \<and> (h5_directory q', prefix) = k
                 \<and> trimmed_row frame reverse q' i)
              = (\<exists>q' \<in> set rest. trim_match tag frame q' \<and> (h5_directory q', prefix) = k
                 \<and> trimmed_row frame reverse q' i)" for k i
      using False by auto
    show ?thesis
      using r tb mk none some unfolding ex by blast
  next
    case True
    let ?key = "(h5_directory q, prefix)"
    from Cons.prems True obtain d0 where d0: "dsets h5f ?key = Some d0"
      and lo: "0 \<le> start_frame q" and hi: "end_frame q \<le> int (length d0)"
      by auto
    let ?d1 = "if reverse then fill_sentinel (nat (start_frame q)) (nat frame) d0
               else fill_sentinel (nat frame) (nat (end_frame q)) d0"
    let ?f1 = "h5f\<lparr>dsets := (dsets h5f)(?key \<mapsto> ?d1)\<rparr>"
    have len1: "length ?d1 = length d0"
      by (rule pass_rows(1) [OF True lo hi])
    have row1: "?d1 ! i = (if trimmed_row frame reverse q i then sentinel else d0 ! i)"
      if "i < length d0" for i
      using that by (rule pass_rows(2) [OF True lo hi])
    have H1: "\<forall>q' \<in> set rest. trim_match tag frame q' \<longrightarrow>
              (\<exists>d. dsets ?f1 (h5_directory q', prefix) = Some d \<and> 0 \<le> start_frame q'
                   \<and> end_frame q' \<le> int (length d))"
    proof (intro ballI impI)
      fix q' assume q': "q' \<in> set rest" and m: "trim_match tag frame q'"
      with Cons.prems obtain d where d: "dsets h5f (h5_directory q', prefix) = Some d"
        and b: "0 \<le> start_frame q'" "end_frame q' \<le> int (length d)"
        by auto
      show "\<exists>d. dsets ?f1 (h5_directory q', prefix) = Some d \<and> 0 \<le> start_frame q'
                   \<and> end_frame q' \<le> int (length d)"
      proof (cases "(h5_directory q', prefix) = ?key")
        case True
        with d d0 have "d = d0" by simp
        with True b len1 show ?thesis by simp
      next
        case False
        with d b show ?thesis by simp
      qed
    qed
    from Cons.IH [OF H1] obtain h5f' where
      run: "trim_queues self tag frame prefix reverse rest (Some ?f1) = (Inr (), map ?g rest, Some h5f')"
      and tb: "table h5f' = table ?f1" and mk: "marker h5f' = marker ?f1"
      and none: "\<forall>k. dsets ?f1 k = None \<longrightarrow> dsets h5f' k = None"
      and some: "\<forall>k d. dsets ?f1 k = Some d \<longrightarrow>
              (\<exists>d'. dsets h5f' k = Some d' \<and> length d' = length d
                 \<and> (\<forall>i < length d. d' ! i =
                       (if \<exists>q \<in> set rest. trim_match tag frame q \<and> (h5_directory q, prefix) = k
                                          \<and> trimmed_row frame reverse q i
                        then sentinel else d ! i)))"
      by blast
    have r: "trim_queues self tag frame prefix reverse (q # rest) (Some h5f)
               = (Inr (), map ?g (q # rest), Some h5f')"
      unfolding trim_pass [OF inside True d0 lo hi] using True run by simp
    have t: "table h5f' = table h5f" and m: "marker h5f' = marker h5f"
      using tb mk by simp_all
    have n: "\<forall>k. dsets h5f k = None \<longrightarrow> dsets h5f' k = None"
    proof (intro allI impI)
      fix k assume k: "dsets h5f k = None"
      with d0 have "k \<noteq> ?key" by auto
      with k have "dsets ?f1 k = None" by simp
      with none show "dsets h5f' k = None" by blast
    qed
    have s: "\<forall>k d. dsets h5f k = Some d \<longrightarrow>
              (\<exists>d'. dsets h5f' k = Some d' \<and> length d' = length d
                 \<and> (\<forall>i < length d. d' ! i =
                       (if \<exists>q' \<in> set (q # rest). trim_match tag frame q' \<and> (h5_directory q', prefix) = k
                                          \<and> trimmed_row frame reverse q' i
                        then sentinel else d ! i)))"
    proof (intro allI impI)
      fix k d assume kd: "dsets h5f k = Some d"
      show "\<exists>d'. dsets h5f' k = Some d' \<and> length d' = length d
                 \<and> (\<forall>i < length d. d' ! i =
                       (if \<exists>q' \<in> set (q # rest). trim_match tag frame q' \<and> (h5_directory q', prefix) = k
                                          \<and> trimmed_row frame reverse q' i
                        then sentinel else d ! i))"
      proof (cases "k = ?key")
        case True
        with kd d0 have dd: "d = d0" by simp
        from True have "dsets ?f1 k = Some ?d1" by simp
        with some obtain d' where d': "dsets h5f' k = Some d'" and l': "length d' = length ?d1"
          and rows: "\<forall>i < length ?d1. d' ! i =
                       (if \<exists>q \<in> set rest. trim_match tag frame q \<and> (h5_directory q, prefix) = k
                                          \<and> trimmed_row frame reverse q i
                        then sentinel else ?d1 ! i)"
          by blast
        have "d' ! i = (if \<exists>q' \<in> set (q # rest). trim_match tag frame q' \<and> (h5_directory q', prefix) = k
                                          \<and> trimmed_row frame reverse q' i
                        then sentinel else d ! i)" if i: "i < length d" for i
        proof -
          have i0: "i < length d0" and i1: "i < length ?d1"
            using i dd len1 by simp_all
          show ?thesis
            using rows [rule_format, OF i1] row1 [OF i0] True \<open>trim_match tag frame q\<close> dd
            by auto
        qed
        with d' l' len1 dd show ?thesis by simp
      next
        case False
        with kd have "dsets ?f1 k = Some d" by simp
        with some obtain d' where d': "dsets h5f' k = Some d'" and l': "length d' = length d"
          and rows: "\<forall>i < length d. d' ! i =
                       (if \<exists>q \<in> set rest. trim_match tag frame q \<and> (h5_directory q, prefix) = k
                                          \<and> trimmed_row frame reverse q i
                        then sentinel else d ! i)"
          by blast
        have "(\<exists>q' \<in> set (q # rest). trim_match tag frame q' \<and> (h5_directory q', prefix) = k
                 \<and> trimmed_row frame reverse q' i)
              = (\<exists>q' \<in> set rest. trim_match tag frame q' \<and> (h5_directory q', prefix) = k
                 \<and> trimmed_row frame reverse q' i)" for i
          using False by auto
        with d' l' rows show ?thesis by simp
      qed
    qed
    from r t m n s show ?thesis by blast
  qed
qed

lemma trim_trajectory_inside:
  assumes "inside_context self"
    and "trim_queues self tag frame prefix reverse (queues self) disk = (r, qs, disk')"
  shows "trim_trajectory tag frame prefix reverse (self, disk)
           = (r, (self\<lparr>queues := qs\<rparr>, disk'))"
  using assms by (simp add: trim_trajectory_def raise_if_outside_context_def)

lemma directory_cam0: "h5_directory queue_cam0 = ''/trajectory/camera_0/z_0/label_m0''"
  by (simp add: h5_directory_def queue_cam0_def str_int_def)

lemma directory_cam1: "h5_directory queue_cam1 = ''/trajectory/camera_1/z_0/label_m0''"
  by (simp add: h5_directory_def queue_cam1_def str_int_def)

lemma match_cam0: "trim_match ''z0-m0'' 1 queue_cam0"
  by (simp add: trim_match_def get_tag_def queue_cam0_def str_int_def)

lemma match_cam1: "trim_match ''z0-m0'' 1 queue_cam1"
  by (simp add: trim_match_def get_tag_def queue_cam1_def str_int_def)

lemma trim_two_cameras:
  "trim_trajectory ''z0-m0'' 1 ''xy'' False (acquired [queue_cam0, queue_cam1], Some two_camera_file)
     = (Inr (),
        (acquired [queue_cam0\<lparr>end_frame := 1\<rparr>, queue_cam1\<lparr>end_frame := 1\<rparr>],
         Some (two_camera_file\<lparr>dsets := (dsets two_camera_file)
            ((''/trajectory/camera_0/z_0/label_m0'', ''xy'') \<mapsto> [(10, 10), (- 1, - 1), (- 1, - 1)],
             (''/trajectory/camera_1/z_0/label_m0'', ''xy'') \<mapsto> [(20, 20), (- 1, - 1), (- 1, - 1)])\<rparr>)))"
proof -
  let ?st = "acquired [queue_cam0, queue_cam1]"
  let ?k0 = "(''/trajectory/camera_0/z_0/label_m0'', ''xy'')"
  let ?k1 = "(''/trajectory/camera_1/z_0/label_m0'', ''xy'')"
  let ?f1 = "two_camera_file\<lparr>dsets := (dsets two_camera_file)
               (?k0 \<mapsto> [(10, 10), (- 1, - 1), (- 1, - 1)])\<rparr>"
  have inside: "inside_context ?st"
    by (simp add: acquired_def)
  have d0: "dsets two_camera_file (h5_directory queue_cam0, ''xy'') = Some [(10, 10), (11, 11), (12, 12)]"
    by (simp add: directory_cam0 two_camera_file_def file_with_def)
  have d1: "dsets ?f1 (h5_directory queue_cam1, ''xy'') = Some [(20, 20), (21, 21), (22, 22)]"
    by (simp add: directory_cam1 two_camera_file_def file_with_def)
  have b0: "0 \<le> start_frame queue_cam0"
    "end_frame queue_cam0 \<le> int (length [(10, 10), (11, 11), (12, 12 :: int)])"
    by (simp_all add: queue_cam0_def)
  have b1: "0 \<le> start_frame queue_cam1"
    "end_frame queue_cam1 \<le> int (length [(20, 20), (21, 21), (22, 22 :: int)])"
    by (simp_all add: queue_cam1_def)
  have e0: "fill_sentinel (nat 1) (nat (end_frame queue_cam0)) [(10, 10), (11, 11), (12, 12)]
              = [(10, 10), (- 1, - 1), (- 1, - 1)]"
    by (simp add: fill_sentinel_def sentinel_def queue_cam0_def eval_nat_numeral)
  have e1: "fill_sentinel (nat 1) (nat (end_frame queue_cam1)) [(20, 20), (21, 21), (22, 22)]
              = [(20, 20), (- 1, - 1), (- 1, - 1)]"
    by (simp add: fill_sentinel_def sentinel_def queue_cam1_def eval_nat_numeral)
  have p0: "trim_queues ?st ''z0-m0'' 1 ''xy'' False [queue_cam0, queue_cam1] (Some two_camera_file)
      = (case trim_queues ?st ''z0-m0'' 1 ''xy'' False [queue_cam1] (Some ?f1) of
           (r, rest', disk') \<Rightarrow> (r, trim_record 1 False queue_cam0 # rest', disk'))"
    using trim_pass [OF inside match_cam0 d0 b0, of False "[queue_cam1]"]
    by (simp only: e0 if_False directory_cam0)
  have p1: "trim_queues ?st ''z0-m0'' 1 ''xy'' False [queue_cam1] (Some ?f1)
      = (case trim_queues ?st ''z0-m0'' 1 ''xy'' False [] (Some (?f1\<lparr>dsets := (dsets ?f1)
               (?k1 \<mapsto> [(20, 20), (- 1, - 1), (- 1, - 1)])\<rparr>)) of
           (r, rest', disk') \<Rightarrow> (r, trim_record 1 False queue_cam1 # rest', disk'))"
    using trim_pass [OF inside match_cam1 d1 b1, of False "[]"]
    by (simp only: e1 if_False directory_cam1)
  have qs: "queues ?st = [queue_cam0, queue_cam1]"
    by (simp add: acquired_def)
  have run: "trim_queues ?st ''z0-m0'' 1 ''xy'' False (queues ?st) (Some two_camera_file)
      = (Inr (), [queue_cam0\<lparr>end_frame := 1\<rparr>, queue_cam1\<lparr>end_frame := 1\<rparr>],
         Some (two_camera_file\<lparr>dsets := (dsets two_camera_file)
            (?k0 \<mapsto> [(10, 10), (- 1, - 1), (- 1, - 1)],
             ?k1 \<mapsto> [(20, 20), (- 1, - 1), (- 1, - 1)])\<rparr>))"
    unfolding qs p0 p1 by (simp add: trim_record_def)
  have st: "?st\<lparr>queues := [queue_cam0\<lparr>end_frame := 1\<rparr>, queue_cam1\<lparr>end_frame := 1\<rparr>]\<rparr>
              = acquired [queue_cam0\<lparr>end_frame := 1\<rparr>, queue_cam1\<lparr>end_frame := 1\<rparr>]"
    by (simp add: acquired_def)
  show ?thesis
    using trim_trajectory_inside [OF inside run] unfolding st .
qed

text \<open>
  Claim C1, as amended.  In an acquired store \<open>trim_trajectory(tag, frame, reverse)\<close>
  visits the records in order and treats every record whose tag matches and whose span
  contains the frame (\<open>start_frame \<le> frame \<le> end_frame\<close>), not the first one only.
  When no record matches, the call returns without changing a record or the container.
  When each matching record has its dataset, with \<open>0 \<le> start_frame\<close> and \<open>end_frame\<close>
  within the dataset's length, the call succeeds; every matching record gets
  \<open>end_frame = frame\<close> (\<open>start_frame = frame\<close> when \<open>reverse\<close>) and the others stay; the
  record table and marker positions stay, no dataset appears or vanishes or changes its
  length, and a row of a dataset holds the sentinel exactly when a matching record stored
  at that path covers it with the rows it gives up (\<open>frame \<le> i < end_frame\<close>, or
  \<open>start_frame \<le> i < frame\<close> when \<open>reverse\<close>), and is unchanged otherwise.
\<close>

theorem trim_trajectory_every_match:
  assumes "inside_context self"
  shows "((\<forall>q \<in> set (queues self). \<not> trim_match tag frame q) \<longrightarrow>
            trim_trajectory tag frame prefix reverse (self, disk) = (Inr (), (self, disk)))
    \<and> ((\<forall>q \<in> set (queues self). trim_match tag frame q \<longrightarrow>
            (\<exists>d. dsets h5f (h5_directory q, prefix) = Some d \<and> 0 \<le> start_frame q
                 \<and> end_frame q \<le> int (length d))) \<longrightarrow>
          (\<exists>h5f'. trim_trajectory tag frame prefix reverse (self, Some h5f)
                    = (Inr (),
                       (self\<lparr>queues := map (\<lambda>q. if trim_match tag frame q
                                                then trim_record frame reverse q else q)
                                          (queues self)\<rparr>,
                        Some h5f'))
             \<and> table h5f' = table h5f \<and> marker h5f' = marker h5f
             \<and> (\<forall>k. dsets h5f k = None \<longrightarrow> dsets h5f' k = None)
             \<and> (\<forall>k d. dsets h5f k = Some d \<longrightarrow>
                   (\<exists>d'. dsets h5f' k = Some d' \<and> length d' = length d
                      \<and> (\<forall>i < length d. d' ! i =
                            (if \<exists>q \<in> set (queues self).
                                  trim_match tag frame q \<and> (h5_directory q, prefix) = k
                                  \<and> trimmed_row frame reverse q i
                             then sentinel else d ! i))))))"
proof (intro conjI impI)
  assume "\<forall>q \<in> set (queues self). \<not> trim_match tag frame q"
  then have "trim_queues self tag frame prefix reverse (queues self) disk
               = (Inr (), queues self, disk)"
    by (rule trim_queues_no_match)
  then show "trim_trajectory tag frame prefix reverse (self, disk) = (Inr (), (self, disk))"
    using assms by (simp add: trim_trajectory_def raise_if_outside_context_def)
next
  assume H: "\<forall>q \<in> set (queues self). trim_match tag frame q \<longrightarrow>
            (\<exists>d. dsets h5f (h5_directory q, prefix) = Some d \<and> 0 \<le> start_frame q
                 \<and> end_frame q \<le> int (length d))"
  let ?g = "\<lambda>q. if trim_match tag frame q then trim_record frame reverse q else q"
  from trim_queues_all [OF assms H] obtain h5f' where
    run: "trim_queues self tag frame prefix reverse (queues self) (Some h5f)
            = (Inr (), map ?g (queues self), Some h5f')"
    and rest: "table h5f' = table h5f \<and> marker h5f' = marker h5f
        \<and> (\<forall>k. dsets h5f k = None \<longrightarrow> dsets h5f' k = None)
        \<and> (\<forall>k d. dsets h5f k = Some d \<longrightarrow>
              (\<exists>d'. dsets h5f' k = Some d' \<and> length d' = length d
                 \<and> (\<forall>i < length d. d' ! i =
                       (if \<exists>q \<in> set (queues self).
                             trim_match tag frame q \<and> (h5_directory q, prefix) = k
                             \<and> trimmed_row frame reverse q i
                        then sentinel else d ! i))))"
    by blast
  have "trim_trajectory tag frame prefix reverse (self, Some h5f)
          = (Inr (), (self\<lparr>queues := map ?g (queues self)\<rparr>, Some h5f'))"
    using assms run by (simp add: trim_trajectory_def raise_if_outside_context_def)
  with rest show "\<exists>h5f'. trim_trajectory tag frame prefix reverse (self, Some h5f)
                    = (Inr (), (self\<lparr>queues := map ?g (queues self)\<rparr>, Some h5f'))
             \<and> table h5f' = table h5f \<and> marker h5f' = marker h5f
             \<and> (\<forall>k. dsets h5f k = None \<longrightarrow> dsets h5f' k = None)
             \<and> (\<forall>k d. dsets h5f k = Some d \<longrightarrow>
                   (\<exists>d'. dsets h5f' k = Some d' \<and> length d' = length d
                      \<and> (\<forall>i < length d. d' ! i =
                            (if \<exists>q \<in> set (queues self).
                                  trim_match tag frame q \<and> (h5_directory q, prefix) = k
                                  \<and> trimmed_row frame reverse q i
                             then sentinel else d ! i))))"
    by blast
qed

text \<open>
  Witness for C1: one marker seen by two cameras, trimmed at frame 1; and frame 7, which
  no span contains.
\<close>

theorem trim_trajectory_every_match_witness:
  "inside_context (acquired [queue_cam0, queue_cam1])
   \<and> trim_match ''z0-m0'' 1 queue_cam0 \<and> trim_match ''z0-m0'' 1 queue_cam1
   \<and> dsets two_camera_file (h5_directory queue_cam0, ''xy'') = Some [(10, 10), (11, 11), (12, 12)]
   \<and> dsets two_camera_file (h5_directory queue_cam1, ''xy'') = Some [(20, 20), (21, 21), (22, 22)]
   \<and> 0 \<le> start_frame queue_cam0 \<and> end_frame queue_cam0 \<le> 3
   \<and> 0 \<le> start_frame queue_cam1 \<and> end_frame queue_cam1 \<le> 3
   \<and> fst (trim_trajectory ''z0-m0'' 1 ''xy'' False
             (acquired [queue_cam0, queue_cam1], Some two_camera_file)) = Inr ()
   \<and> queues (fst (snd (trim_trajectory ''z0-m0'' 1 ''xy'' False
             (acquired [queue_cam0, queue_cam1], Some two_camera_file))))
       = [queue_cam0\<lparr>end_frame := 1\<rparr>, queue_cam1\<lparr>end_frame := 1\<rparr>]
   \<and> dataset_at (snd (trim_trajectory ''z0-m0'' 1 ''xy'' False
             (acquired [queue_cam0, queue_cam1], Some two_camera_file))) queue_cam0 ''xy''
       = Some [(10, 10), (- 1, - 1), (- 1, - 1)]
   \<and> dataset_at (snd (trim_trajectory ''z0-m0'' 1 ''xy'' False
             (acquired [queue_cam0, queue_cam1], Some two_camera_file))) queue_cam1 ''xy''
       = Some [(20, 20), (- 1, - 1), (- 1, - 1)]
   \<and> \<not> trim_match ''z0-m0'' 7 queue_cam0 \<and> \<not> trim_match ''z0-m0'' 7 queue_cam1
   \<and> trim_trajectory ''z0-m0'' 7 ''xy'' False
        (acquired [queue_cam0, queue_cam1], Some two_camera_file)
       = (Inr (), (acquired [queue_cam0, queue_cam1], Some two_camera_file))"
proof -
  let ?st = "acquired [queue_cam0, queue_cam1]"
  have inside: "inside_context ?st"
    by (simp add: acquired_def)
  have d0: "dsets two_camera_file (h5_directory queue_cam0, ''xy'') = Some [(10, 10), (11, 11), (12, 12)]"
    by (simp add: directory_cam0 two_camera_file_def file_with_def)
  have d1: "dsets two_camera_file (h5_directory queue_cam1, ''xy'') = Some [(20, 20), (21, 21), (22, 22)]"
    by (simp add: directory_cam1 two_camera_file_def file_with_def)
  have b: "0 \<le> start_frame queue_cam0" "end_frame queue_cam0 \<le> 3"
    "0 \<le> start_frame queue_cam1" "end_frame queue_cam1 \<le> 3"
    by (simp_all add: queue_cam0_def queue_cam1_def)
  have n: "\<not> trim_match ''z0-m0'' 7 queue_cam0" "\<not> trim_match ''z0-m0'' 7 queue_cam1"
    by (simp_all add: trim_match_def queue_cam0_def queue_cam1_def)
  have H7: "\<forall>q \<in> set (queues ?st). \<not> trim_match ''z0-m0'' 7 q"
    using n by (simp add: acquired_def)
  have H1: "\<forall>q \<in> set (queues ?st). trim_match ''z0-m0'' 1 q \<longrightarrow>
            (\<exists>d. dsets two_camera_file (h5_directory q, ''xy'') = Some d \<and> 0 \<le> start_frame q
                 \<and> end_frame q \<le> int (length d))"
    using d0 d1 b by (simp add: acquired_def)
  note inst7 = trim_trajectory_every_match [OF inside, of "''z0-m0''" 7 "''xy''" False
      "Some two_camera_file" two_camera_file]
  note inst1 = trim_trajectory_every_match [OF inside, of "''z0-m0''" 1 "''xy''" False
      "Some two_camera_file" two_camera_file]
  have noop: "trim_trajectory ''z0-m0'' 7 ''xy'' False (?st, Some two_camera_file)
       = (Inr (), (?st, Some two_camera_file))"
    using inst7 H7 by blast
  have ok: "fst (trim_trajectory ''z0-m0'' 1 ''xy'' False (?st, Some two_camera_file)) = Inr ()"
    using inst1 H1 by force
  have res: "queues (fst (snd (trim_trajectory ''z0-m0'' 1 ''xy'' False (?st, Some two_camera_file))))
       = [queue_cam0\<lparr>end_frame := 1\<rparr>, queue_cam1\<lparr>end_frame := 1\<rparr>]"
    "dataset_at (snd (trim_trajectory ''z0-m0'' 1 ''xy'' False (?st, Some two_camera_file)))
       queue_cam0 ''xy'' = Some [(10, 10), (- 1, - 1), (- 1, - 1)]"
    "dataset_at (snd (trim_trajectory ''z0-m0'' 1 ''xy'' False (?st, Some two_camera_file)))
       queue_cam1 ''xy'' = Some [(20, 20), (- 1, - 1), (- 1, - 1)]"
    unfolding trim_two_cameras
    by (simp_all add: acquired_def dataset_at_def directory_cam0 directory_cam1)
  from inside match_cam0 match_cam1 d0 d1 b ok res n noop show ?thesis
    by blast
qed

text \<open>
  Counterexample for C1 as stated: both records carry the tag \<open>z0-m0\<close> and span frame
  1.  Trimming the first match only would leave the record and trajectory of camera 1 as
  they were; the code moves that record's \<open>end_frame\<close> and overwrites its rows as well.
\<close>

theorem trim_second_match_counterexample:
  "trim_match ''z0-m0'' 1 queue_cam0 \<and> trim_match ''z0-m0'' 1 queue_cam1
   \<and> queues (fst (trim_first_spec ''z0-m0'' 1 ''xy'' False
                    (acquired [queue_cam0, queue_cam1], Some two_camera_file)))
       = [queue_cam0\<lparr>end_frame := 1\<rparr>, queue_cam1]
   \<and> dataset_at (trim_first_spec ''z0-m0'' 1 ''xy'' False
                    (acquired [queue_cam0, queue_cam1], Some two_camera_file)) queue_cam1 ''xy''
       = Some [(20, 20), (21, 21), (22, 22)]
   \<and> queues (fst (snd (trim_trajectory ''z0-m0'' 1 ''xy'' False
                    (acquired [queue_cam0, queue_cam1], Some two_camera_file))))
       = [queue_cam0\<lparr>end_frame := 1\<rparr>, queue_cam1\<lparr>end_frame := 1\<rparr>]
   \<and> dataset_at (snd (trim_trajectory ''z0-m0'' 1 ''xy'' False
                    (acquired [queue_cam0, queue_cam1], Some two_camera_file))) queue_cam1 ''xy''
       = Some [(20, 20), (- 1, - 1), (- 1, - 1)]
   \<and> snd (trim_trajectory ''z0-m0'' 1 ''xy'' False
             (acquired [queue_cam0, queue_cam1], Some two_camera_file))
       \<noteq> trim_first_spec ''z0-m0'' 1 ''xy'' False
             (acquired [queue_cam0, queue_cam1], Some two_camera_file)"
proof -
  let ?s0 = "(acquired [queue_cam0, queue_cam1], Some two_camera_file)"
  have spec_q: "queues (fst (trim_first_spec ''z0-m0'' 1 ''xy'' False ?s0))
       = [queue_cam0\<lparr>end_frame := 1\<rparr>, queue_cam1]"
    using match_cam0
    by (simp add: trim_first_spec_def acquired_def Let_def trim_record_def)
  have spec_d: "dataset_at (trim_first_spec ''z0-m0'' 1 ''xy'' False ?s0) queue_cam1 ''xy''
       = Some [(20, 20), (21, 21), (22, 22)]"
    using match_cam0
    by (simp add: trim_first_spec_def acquired_def Let_def dataset_at_def directory_cam0
        directory_cam1 two_camera_file_def file_with_def)
  have code_q: "queues (fst (snd (trim_trajectory ''z0-m0'' 1 ''xy'' False ?s0)))
       = [queue_cam0\<lparr>end_frame := 1\<rparr>, queue_cam1\<lparr>end_frame := 1\<rparr>]"
    unfolding trim_two_cameras by (simp add: acquired_def)
  have code_d: "dataset_at (snd (trim_trajectory ''z0-m0'' 1 ''xy'' False ?s0)) queue_cam1 ''xy''
       = Some [(20, 20), (- 1, - 1), (- 1, - 1)]"
    unfolding trim_two_cameras by (simp add: dataset_at_def directory_cam1)
  have differ: "snd (trim_trajectory ''z0-m0'' 1 ''xy'' False ?s0)
       \<noteq> trim_first_spec ''z0-m0'' 1 ''xy'' False ?s0"
    using spec_d code_d by auto
  from match_cam0 match_cam1 spec_q spec_d code_q code_d differ show ?thesis
    by blast
qed

end
